theory Spec2Isabelle
  imports Main "HOL-Library.Word"
begin

unbundle bit_operations_syntax

section \<open>Python values\<close>

text \<open>
  A Python \<open>str\<close> is a sequence of Unicode code points, so it is modelled as a list of
  natural numbers (\<open>len\<close> counts code points, \<open>encode\<close> can fail on a lone surrogate).
  \<open>u\<close> embeds an ASCII literal. \<open>bytes\<close> are lists of 8-bit words.
\<close>

type_synonym pystr = "nat list"
type_synonym bytes = "8 word list"

definition u :: "string \<Rightarrow> pystr" where
  "u s = map of_char s"

text \<open>Identifiers reach the code as \<open>int\<close> (chat ids, generated registration ids) or as
  \<open>str\<close> (callback payloads, JSON keys).\<close>

datatype pyval = PInt int | PStr pystr

datatype exn = KeyError | IndexError | ValueError | TypeError | UnicodeEncodeError | OSError
  | OverflowError | NetworkError

fun digits :: "nat \<Rightarrow> pystr" where
  "digits n = (if n < 10 then [48 + n] else digits (n div 10) @ [48 + n mod 10])"

declare digits.simps [simp del]

definition str_int :: "int \<Rightarrow> pystr" where
  "str_int i = (if i < 0 then 45 # digits (nat (- i)) else digits (nat i))"

text \<open>\<open>str(x)\<close>\<close>

fun py_str :: "pyval \<Rightarrow> pystr" where
  "py_str (PInt i) = str_int i"
| "py_str (PStr s) = s"

text \<open>Truthiness of a value, as \<open>if not user_id\<close> tests it.\<close>

fun truthy :: "pyval \<Rightarrow> bool" where
  "truthy (PInt i) = (i \<noteq> 0)"
| "truthy (PStr s) = (s \<noteq> [])"

text \<open>The code points \<open>str.strip()\<close> removes (CPython's whitespace table).\<close>

definition is_space :: "nat \<Rightarrow> bool" where
  "is_space c = ((9 \<le> c \<and> c \<le> 13) \<or> (28 \<le> c \<and> c \<le> 32) \<or> c = 133 \<or> c = 160
     \<or> c = 5760 \<or> (8192 \<le> c \<and> c \<le> 8202) \<or> c = 8232 \<or> c = 8233 \<or> c = 8239
     \<or> c = 8287 \<or> c = 12288)"

definition strip :: "pystr \<Rightarrow> pystr" where
  "strip s = rev (dropWhile is_space (rev (dropWhile is_space s)))"

text \<open>\<open>s.replace(c, '')\<close> for a one-character \<open>c\<close> deletes every occurrence of it.\<close>

definition remove_char :: "nat \<Rightarrow> pystr \<Rightarrow> pystr" where
  "remove_char c s = filter (\<lambda>x. x \<noteq> c) s"

text \<open>\<open>s.encode()\<close>: strict UTF-8. Surrogate code points raise \<open>UnicodeEncodeError\<close>.\<close>

definition encode_cp :: "nat \<Rightarrow> bytes option" where
  "encode_cp c =
     (if c < 128 then Some [of_nat c]
      else if c < 2048 then Some [of_nat (192 + c div 64), of_nat (128 + c mod 64)]
      else if 55296 \<le> c \<and> c \<le> 57343 then None
      else if c < 65536 then
        Some [of_nat (224 + c div 4096), of_nat (128 + c div 64 mod 64), of_nat (128 + c mod 64)]
      else if c < 1114112 then
        Some [of_nat (240 + c div 262144), of_nat (128 + c div 4096 mod 64),
              of_nat (128 + c div 64 mod 64), of_nat (128 + c mod 64)]
      else None)"

fun encode :: "pystr \<Rightarrow> exn + bytes" where
  "encode [] = Inr []"
| "encode (c # cs) =
     (case encode_cp c of
        None \<Rightarrow> Inl UnicodeEncodeError
      | Some bs \<Rightarrow> (case encode cs of Inl e \<Rightarrow> Inl e | Inr rest \<Rightarrow> Inr (bs @ rest)))"

section \<open>Library functions used by the token generator\<close>

subsection \<open>SHA-256 (FIPS 180-4)\<close>

type_synonym u32 = "32 word"

text \<open>The round constants and the initial hash value, in decimal.\<close>

definition K256 :: "u32 list" where
  "K256 = [
    1116352408, 1899447441, 3049323471, 3921009573, 961987163, 1508970993, 2453635748, 2870763221,
    3624381080, 310598401, 607225278, 1426881987, 1925078388, 2162078206, 2614888103, 3248222580,
    3835390401, 4022224774, 264347078, 604807628, 770255983, 1249150122, 1555081692, 1996064986,
    2554220882, 2821834349, 2952996808, 3210313671, 3336571891, 3584528711, 113926993, 338241895,
    666307205, 773529912, 1294757372, 1396182291, 1695183700, 1986661051, 2177026350, 2456956037,
    2730485921, 2820302411, 3259730800, 3345764771, 3516065817, 3600352804, 4094571909, 275423344,
    430227734, 506948616, 659060556, 883997877, 958139571, 1322822218, 1537002063, 1747873779,
    1955562222, 2024104815, 2227730452, 2361852424, 2428436474, 2756734187, 3204031479, 3329325298]"

definition H256 :: "u32 list" where
  "H256 = [1779033703, 3144134277, 1013904242, 2773480762,
           1359893119, 2600822924, 528734635, 1541459225]"

definition rotr :: "nat \<Rightarrow> u32 \<Rightarrow> u32" where
  "rotr n x = word_rotr n x"

definition small_sigma0 :: "u32 \<Rightarrow> u32" where
  "small_sigma0 x = rotr 7 x XOR rotr 18 x XOR drop_bit 3 x"

definition small_sigma1 :: "u32 \<Rightarrow> u32" where
  "small_sigma1 x = rotr 17 x XOR rotr 19 x XOR drop_bit 10 x"

definition big_sigma0 :: "u32 \<Rightarrow> u32" where
  "big_sigma0 x = rotr 2 x XOR rotr 13 x XOR rotr 22 x"

definition big_sigma1 :: "u32 \<Rightarrow> u32" where
  "big_sigma1 x = rotr 6 x XOR rotr 11 x XOR rotr 25 x"

definition ch :: "u32 \<Rightarrow> u32 \<Rightarrow> u32 \<Rightarrow> u32" where
  "ch x y z = (x AND y) XOR (NOT x AND z)"

definition maj :: "u32 \<Rightarrow> u32 \<Rightarrow> u32 \<Rightarrow> u32" where
  "maj x y z = (x AND y) XOR (x AND z) XOR (y AND z)"

text \<open>Padding: a \<open>128\<close> byte, zeros up to 56 modulo 64, the bit length on 8 bytes.\<close>

definition be_bytes :: "nat \<Rightarrow> nat \<Rightarrow> bytes" where
  "be_bytes k n = map (\<lambda>i. of_nat (n div 256 ^ (k - 1 - i))) [0..<k]"

definition sha_pad :: "bytes \<Rightarrow> bytes" where
  "sha_pad m = m @ [128] @ replicate ((119 - length m mod 64) mod 64) 0
                 @ be_bytes 8 (8 * length m)"

fun chunks :: "nat \<Rightarrow> 'a list \<Rightarrow> 'a list list" where
  "chunks n [] = []"
| "chunks n (x # xs) = take (Suc (n - 1)) (x # xs) # chunks n (drop (n - 1) xs)"

definition be_word :: "bytes \<Rightarrow> u32" where
  "be_word bs = foldl (\<lambda>acc b. push_bit 8 acc OR ucast b) 0 bs"

fun schedule :: "nat \<Rightarrow> u32 list \<Rightarrow> u32 list" where
  "schedule 0 w = w"
| "schedule (Suc n) w =
     (let t = length w
      in schedule n (w @ [small_sigma1 (w ! (t - 2)) + w ! (t - 7)
                          + small_sigma0 (w ! (t - 15)) + w ! (t - 16)]))"

type_synonym sha_state = "u32 \<times> u32 \<times> u32 \<times> u32 \<times> u32 \<times> u32 \<times> u32 \<times> u32"

definition sha_round :: "sha_state \<Rightarrow> u32 \<times> u32 \<Rightarrow> sha_state" where
  "sha_round s kw =
     (case s of (a, b, c, d, e, f, g, h) \<Rightarrow>
        (let t1 = h + big_sigma1 e + ch e f g + fst kw + snd kw;
             t2 = big_sigma0 a + maj a b c
         in (t1 + t2, a, b, c, d + t1, e, f, g)))"

definition compress :: "u32 list \<Rightarrow> bytes \<Rightarrow> u32 list" where
  "compress hs block =
     (let w = schedule 48 (map be_word (chunks 4 block));
          s0 = (hs ! 0, hs ! 1, hs ! 2, hs ! 3, hs ! 4, hs ! 5, hs ! 6, hs ! 7)
      in case foldl sha_round s0 (zip K256 w) of (a, b, c, d, e, f, g, h) \<Rightarrow>
           map2 (+) hs [a, b, c, d, e, f, g, h])"

definition word_bytes :: "u32 \<Rightarrow> bytes" where
  "word_bytes w = [ucast (drop_bit 24 w), ucast (drop_bit 16 w), ucast (drop_bit 8 w), ucast w]"

definition sha256 :: "bytes \<Rightarrow> bytes" where
  "sha256 m = concat (map word_bytes (foldl compress H256 (chunks 64 (sha_pad m))))"

subsection \<open>HMAC (RFC 2104) with SHA-256\<close>

definition hmac_sha256 :: "bytes \<Rightarrow> bytes \<Rightarrow> bytes" where
  "hmac_sha256 key msg =
     (let k0 = (if length key > 64 then sha256 key else key);
          k = k0 @ replicate (64 - length k0) 0
      in sha256 (map (\<lambda>b. b XOR 92) k @ sha256 (map (\<lambda>b. b XOR 54) k @ msg)))"

subsection \<open>URL-safe base64 (RFC 4648)\<close>

definition b64_alphabet :: "pystr" where
  "b64_alphabet = u ''ABCDEFGHIJKLMNOPQRSTUVWXYZabcdefghijklmnopqrstuvwxyz0123456789-_''"

definition b64_char :: "nat \<Rightarrow> nat" where
  "b64_char i = b64_alphabet ! (i mod 64)"

fun urlsafe_b64encode :: "bytes \<Rightarrow> pystr" where
  "urlsafe_b64encode [] = []"
| "urlsafe_b64encode [a] =
     (let n = unat a * 65536
      in [b64_char (n div 262144), b64_char (n div 4096), 61, 61])"
| "urlsafe_b64encode [a, b] =
     (let n = unat a * 65536 + unat b * 256
      in [b64_char (n div 262144), b64_char (n div 4096), b64_char (n div 64), 61])"
| "urlsafe_b64encode (a # b # c # rest) =
     (let n = unat a * 65536 + unat b * 256 + unat c
      in [b64_char (n div 262144), b64_char (n div 4096), b64_char (n div 64), b64_char n]
         @ urlsafe_b64encode rest)"

section \<open>utils.py: proof tokens\<close>

text \<open>
  \<open>generate_qr_token\<close>, with \<open>Config.SECRET_KEY\<close> as the first argument. The body of the
  \<open>try\<close> raises when the message or the key cannot be encoded; the handler then returns
  the literal \<open>default_token\<close>.
\<close>

definition token_data :: "pyval \<Rightarrow> pyval \<Rightarrow> pyval \<Rightarrow> pystr" where
  "token_data registration_id event_id user_id =
     strip (py_str registration_id) @ u ''_'' @ strip (py_str event_id) @ u ''_''
       @ strip (py_str user_id)"

definition generate_qr_token :: "pystr \<Rightarrow> pyval \<Rightarrow> pyval \<Rightarrow> pyval \<Rightarrow> pystr" where
  "generate_qr_token SECRET_KEY registration_id event_id user_id =
     (case encode (token_data registration_id event_id user_id) of
        Inl e \<Rightarrow> u ''default_token''
      | Inr data \<Rightarrow>
          (case encode SECRET_KEY of
             Inl e \<Rightarrow> u ''default_token''
           | Inr key \<Rightarrow>
               (let signature = hmac_sha256 key data;
                    token = remove_char 45 (remove_char 95 (remove_char 61
                              (take 16 (urlsafe_b64encode signature))))
                in token)))"




section \<open>Splitting strings\<close>

text \<open>\<open>s.split(c)\<close> for a one-character separator.\<close>

function split_char :: "nat \<Rightarrow> pystr \<Rightarrow> pystr list" where
  "split_char c s =
     takeWhile (\<lambda>x. x \<noteq> c) s #
       (case dropWhile (\<lambda>x. x \<noteq> c) s of [] \<Rightarrow> [] | x # rest \<Rightarrow> split_char c rest)"
  by pat_completeness auto
termination
proof (relation "measure (\<lambda>(c, s). length s)")
  show "wf (measure (\<lambda>(c, s). length s))" by simp
next
  fix c :: nat and s :: pystr and x rest
  assume "dropWhile (\<lambda>x. x \<noteq> c) s = x # rest"
  then have "length rest < length (dropWhile (\<lambda>x. x \<noteq> c) s)" by simp
  also have "\<dots> \<le> length s" by (rule length_dropWhile_le)
  finally show "((c, rest), (c, s)) \<in> measure (\<lambda>(c, s). length s)" by simp
qed

declare split_char.simps [simp del]

text \<open>\<open>s.split(sep)\<close> for a separator of several characters; \<open>find_sub\<close> is the index
  of the first occurrence. Python raises \<open>ValueError\<close> on an empty separator; the callers
  pass literals.\<close>

fun find_sub :: "pystr \<Rightarrow> pystr \<Rightarrow> nat option" where
  "find_sub sep [] = (if sep = [] then Some 0 else None)"
| "find_sub sep (x # xs) =
     (if take (length sep) (x # xs) = sep then Some 0
      else map_option Suc (find_sub sep xs))"

lemma find_sub_bound: "find_sub sep s = Some i \<Longrightarrow> i + length sep \<le> length s"
proof (induction s arbitrary: i)
  case Nil
  then show ?case by (simp split: if_splits)
next
  case (Cons x xs)
  show ?case
  proof (cases "take (length sep) (x # xs) = sep")
    case True
    then have "length (take (length sep) (x # xs)) = length sep" by simp
    then have "length sep \<le> length (x # xs)"
      by (simp add: min_def split: if_splits)
    with True Cons.prems show ?thesis by simp
  next
    case False
    with Cons.prems obtain j where "find_sub sep xs = Some j" "i = Suc j" by auto
    with Cons.IH show ?thesis by fastforce
  qed
qed

function split_str :: "pystr \<Rightarrow> pystr \<Rightarrow> pystr list" where
  "split_str sep s =
     (if sep = [] then [s]
      else case find_sub sep s of
             None \<Rightarrow> [s]
           | Some i \<Rightarrow> take i s # split_str sep (drop (i + length sep) s))"
  by pat_completeness auto
termination
proof (relation "measure (\<lambda>(sep, s). length s)")
  show "wf (measure (\<lambda>(sep, s). length s))" by simp
next
  fix sep s :: pystr and i
  assume "sep \<noteq> []" and "find_sub sep s = Some i"
  then have a: "i + length sep \<le> length s" and b: "0 < length sep"
    by (auto dest: find_sub_bound)
  have "length s - (i + length sep) < length s"
    using a b by linarith
  then show "((sep, drop (i + length sep) s), (sep, s)) \<in> measure (\<lambda>(sep, s). length s)"
    by simp
qed

declare split_str.simps [simp del]

definition contains :: "pystr \<Rightarrow> pystr \<Rightarrow> bool" where
  "contains sep s = (find_sub sep s \<noteq> None)"

definition startswith :: "pystr \<Rightarrow> pystr \<Rightarrow> bool" where
  "startswith p s = (take (length p) s = p)"

section \<open>Time\<close>

text \<open>
  Times are counted in microseconds from 0001-01-01 00:00, the least \<open>datetime\<close>.
  \<open>Naive t\<close> has the wall-clock fields \<open>t\<close>. \<open>Aware t off\<close> is the instant \<open>t\<close> (on the UTC
  scale) carried with the UTC offset \<open>off\<close>; its wall-clock fields are \<open>t + off\<close>.
  \<open>datetime.now(timezone)\<close> is always aware and is given by its instant. Ordering
  compares instants, and ordering an aware value against a naive one raises
  \<open>TypeError\<close>. Arithmetic works on the wall-clock fields and raises \<open>OverflowError\<close> when
  the result leaves the years 1 to 9999; so does \<open>timedelta(minutes=m)\<close> when it exceeds
  999999999 days. The reading of the clock itself is far from both ends of the range, so
  \<open>now - timedelta(hours=2)\<close> is plain subtraction.
\<close>

datatype datetime = Naive int | Aware int int

definition minutes :: "int \<Rightarrow> int" where
  "minutes m = m * 60000000"

definition hours :: "int \<Rightarrow> int" where
  "hours h = h * 3600000000"

text \<open>\<open>datetime.max\<close>, 9999-12-31 23:59:59.999999.\<close>

definition max_datetime :: int where
  "max_datetime = 315537897599999999"

definition in_datetime_range :: "int \<Rightarrow> bool" where
  "in_datetime_range t = (0 \<le> t \<and> t \<le> max_datetime)"

text \<open>\<open>timedelta(minutes=m)\<close> for an integer \<open>m\<close>: its days are \<open>m\<close> floor-divided by 1440.\<close>

definition timedelta_minutes :: "int \<Rightarrow> exn + int" where
  "timedelta_minutes m =
     (if - 999999999 \<le> m div 1440 \<and> m div 1440 \<le> 999999999 then Inr (minutes m)
      else Inl OverflowError)"

text \<open>\<open>dt + delta\<close>\<close>

fun plus_delta :: "datetime \<Rightarrow> int \<Rightarrow> exn + datetime" where
  "plus_delta (Naive t) d =
     (if in_datetime_range (t + d) then Inr (Naive (t + d)) else Inl OverflowError)"
| "plus_delta (Aware t off) d =
     (if in_datetime_range (t + off + d) then Inr (Aware (t + d) off) else Inl OverflowError)"

text \<open>\<open>a <= b\<close> and \<open>a < b\<close> where \<open>b\<close> or \<open>a\<close> is an aware instant.\<close>

fun le_aware :: "datetime \<Rightarrow> int \<Rightarrow> exn + bool" where
  "le_aware (Naive t) n = Inl TypeError"
| "le_aware (Aware t off) n = Inr (t \<le> n)"

fun aware_le :: "int \<Rightarrow> datetime \<Rightarrow> exn + bool" where
  "aware_le n (Naive t) = Inl TypeError"
| "aware_le n (Aware t off) = Inr (n \<le> t)"

fun lt_aware :: "datetime \<Rightarrow> int \<Rightarrow> exn + bool" where
  "lt_aware (Naive t) n = Inl TypeError"
| "lt_aware (Aware t off) n = Inr (t < n)"

fun aware_lt :: "int \<Rightarrow> datetime \<Rightarrow> exn + bool" where
  "aware_lt n (Naive t) = Inl TypeError"
| "aware_lt n (Aware t off) = Inr (n < t)"

section \<open>Events\<close>

text \<open>
  An event record as \<open>SheetsManager.create_event\<close> writes it. \<open>e_start_at\<close> holds what
  \<open>datetime.fromisoformat(event['start_at'])\<close> evaluates to: \<open>KeyError\<close> when the key is
  missing, \<open>ValueError\<close> when the text is malformed. The window offsets and the
  description are read with \<open>dict.get\<close>, so they may be absent.
\<close>

record event =
  e_event_id :: pystr
  e_title :: pystr
  e_description :: "pystr option"
  e_start_at :: "exn + datetime"
  e_place :: pystr
  e_capacity :: int
  e_media_file_id :: pystr
  e_media_type :: pystr
  e_status :: pystr
  e_checkin_window_start_minutes :: "int option"
  e_checkin_window_end_minutes :: "int option"
  e_created_at :: int
  e_updated_at :: int

text \<open>\<open>d.get(key, default)\<close>\<close>

definition get_default :: "'a option \<Rightarrow> 'a \<Rightarrow> 'a" where
  "get_default v d = (case v of None \<Rightarrow> d | Some x \<Rightarrow> x)"

text \<open>
  \<open>is_within_checkin_window\<close> (utils.py); \<open>now\<close> is \<open>datetime.now(timezone)\<close>. Both ends
  of the window are computed before the comparison. Every exception of the body gives
  \<open>False\<close>.
\<close>

definition checkin_window :: "event \<Rightarrow> exn + datetime \<times> datetime" where
  "checkin_window event_data =
     (case e_start_at event_data of
        Inl e \<Rightarrow> Inl e
      | Inr start_at \<Rightarrow>
          (case timedelta_minutes
                  (get_default (e_checkin_window_start_minutes event_data) (- 60)) of
             Inl e \<Rightarrow> Inl e
           | Inr d1 \<Rightarrow>
               (case plus_delta start_at d1 of
                  Inl e \<Rightarrow> Inl e
                | Inr checkin_start \<Rightarrow>
                    (case timedelta_minutes
                            (get_default (e_checkin_window_end_minutes event_data) 120) of
                       Inl e \<Rightarrow> Inl e
                     | Inr d2 \<Rightarrow>
                         (case plus_delta start_at d2 of
                            Inl e \<Rightarrow> Inl e
                          | Inr checkin_end \<Rightarrow> Inr (checkin_start, checkin_end))))))"

definition is_within_checkin_window :: "int \<Rightarrow> event \<Rightarrow> bool" where
  "is_within_checkin_window now event_data =
     (case checkin_window event_data of
        Inl e \<Rightarrow> False
      | Inr (checkin_start, checkin_end) \<Rightarrow>
          (case le_aware checkin_start now of
             Inl e \<Rightarrow> False
           | Inr lo \<Rightarrow>
               (if \<not> lo then False
                else case aware_le now checkin_end of
                       Inl e \<Rightarrow> False
                     | Inr hi \<Rightarrow> hi)))"

section \<open>local_storage.py: the durable store\<close>

subsection \<open>Dictionaries\<close>

text \<open>
  A Python \<open>dict\<close> keeps insertion order, and several handlers depend on it, so a
  collection is an association list with distinct keys: \<open>d[k] = v\<close> replaces in place or
  appends, \<open>del d[k]\<close> removes, \<open>d.get(k)\<close> is \<open>map_of\<close>.
\<close>

type_synonym 'v dict = "(pystr \<times> 'v) list"

fun dict_set :: "pystr \<Rightarrow> 'v \<Rightarrow> 'v dict \<Rightarrow> 'v dict" where
  "dict_set k v [] = [(k, v)]"
| "dict_set k v (p # ps) = (if fst p = k then (k, v) # ps else p # dict_set k v ps)"

definition dict_del :: "pystr \<Rightarrow> 'v dict \<Rightarrow> 'v dict" where
  "dict_del k d = filter (\<lambda>p. fst p \<noteq> k) d"

definition dict_get :: "'v dict \<Rightarrow> pystr \<Rightarrow> 'v option" where
  "dict_get d k = map_of d k"

definition has_key :: "'v dict \<Rightarrow> pystr \<Rightarrow> bool" where
  "has_key d k = (k \<in> set (map fst d))"

subsection \<open>Records of the collections\<close>

text \<open>
  The records have the fields \<open>SheetsManager\<close> writes. After \<open>load_all\<close> every stored
  value is a \<open>dict\<close> (\<open>_validate_data\<close> drops the others), so the \<open>isinstance\<close> guards of the
  readers always pass. Timestamps written with \<open>isoformat()\<close> are kept as instants.
  \<open>r_qr_token\<close> is read with \<open>get('qr_token', '')\<close> and may be absent.
\<close>

record registration =
  r_registration_id :: pyval
  r_event_id :: pyval
  r_user_id :: pyval
  r_full_name :: pystr
  r_status :: pystr
  r_waitlist_position :: "int option"
  r_qr_token :: "pystr option"
  r_checkin_at :: "int option"
  r_created_at :: int
  r_updated_at :: int

record user =
  u_user_id :: pyval
  u_username :: pystr
  u_full_name :: pystr
  u_created_at :: int
  u_is_blacklisted :: bool

record blacklist_entry =
  b_user_id :: pystr
  b_reason :: pystr
  b_added_by :: pystr
  b_added_at :: int

record reminder =
  m_event_id :: pyval
  m_user_id :: pyval
  m_scheduled_for :: int
  m_type :: pystr
  m_sent_at :: "int option"

subsection \<open>State\<close>

datatype data_type = Events | Users | Registrations | Blacklist | Reminders

record collections =
  events :: "event dict"
  users :: "user dict"
  registrations :: "registration dict"
  blacklist :: "blacklist_entry dict"
  reminders :: "reminder dict"

datatype log_entry =
    SaveError data_type
  | BlacklistAddError exn
  | FacadeBlacklistError exn

text \<open>
  A JSON file holds a whole collection or, after a write that failed half-way, a
  truncated document. \<open>save_locally\<close> opens the file with mode \<open>'w'\<close>, which empties it,
  and then dumps the collection: the write of a collection can fail when the file is
  opened (\<open>OpenFails\<close>, the file keeps its content) or during \<open>json.dump\<close> (\<open>DumpFails\<close>,
  the file is left truncated).
\<close>

datatype 'a file_content = Document 'a | Truncated

record disk =
  events_json :: "event dict file_content"
  users_json :: "user dict file_content"
  registrations_json :: "registration dict file_content"
  blacklist_json :: "blacklist_entry dict file_content"
  reminders_json :: "reminder dict file_content"

datatype write_fault = OpenFails | DumpFails

text \<open>
  \<open>data\<close> is \<open>self.data\<close>; \<open>files\<close> is what the JSON files hold; \<open>faults\<close> tells for which
  collections writing the file fails, and how; \<open>logged\<close> collects the \<open>logger.error\<close>
  records of the store.
\<close>

record local_storage =
  data :: collections
  files :: disk
  faults :: "(data_type \<times> write_fault) list"
  logged :: "log_entry list"

definition disk_of :: "collections \<Rightarrow> disk" where
  "disk_of c = \<lparr> events_json = Document (events c), users_json = Document (users c),
                 registrations_json = Document (registrations c),
                 blacklist_json = Document (blacklist c),
                 reminders_json = Document (reminders c) \<rparr>"

fun persist :: "data_type \<Rightarrow> collections \<Rightarrow> disk \<Rightarrow> disk" where
  "persist Events d f = f\<lparr>events_json := Document (events d)\<rparr>"
| "persist Users d f = f\<lparr>users_json := Document (users d)\<rparr>"
| "persist Registrations d f = f\<lparr>registrations_json := Document (registrations d)\<rparr>"
| "persist Blacklist d f = f\<lparr>blacklist_json := Document (blacklist d)\<rparr>"
| "persist Reminders d f = f\<lparr>reminders_json := Document (reminders d)\<rparr>"

fun truncate_file :: "data_type \<Rightarrow> disk \<Rightarrow> disk" where
  "truncate_file Events f = f\<lparr>events_json := Truncated\<rparr>"
| "truncate_file Users f = f\<lparr>users_json := Truncated\<rparr>"
| "truncate_file Registrations f = f\<lparr>registrations_json := Truncated\<rparr>"
| "truncate_file Blacklist f = f\<lparr>blacklist_json := Truncated\<rparr>"
| "truncate_file Reminders f = f\<lparr>reminders_json := Truncated\<rparr>"

text \<open>\<open>save_locally\<close>: the whole body is inside \<open>try ... except Exception\<close>, which logs and
  returns, so no exception leaves it.\<close>

definition save_locally :: "data_type \<Rightarrow> local_storage \<Rightarrow> local_storage" where
  "save_locally data_type st =
     (case map_of (faults st) data_type of
        None \<Rightarrow> st\<lparr>files := persist data_type (data st) (files st)\<rparr>
      | Some OpenFails \<Rightarrow> st\<lparr>logged := logged st @ [SaveError data_type]\<rparr>
      | Some DumpFails \<Rightarrow>
          st\<lparr>files := truncate_file data_type (files st),
             logged := logged st @ [SaveError data_type]\<rparr>)"

subsection \<open>Events\<close>

definition get_event :: "local_storage \<Rightarrow> pyval \<Rightarrow> event option" where
  "get_event st event_id = dict_get (events (data st)) (py_str event_id)"

text \<open>
  The loops of \<open>get_upcoming_events\<close> and \<open>get_past_events\<close>. \<open>ValueError\<close> and \<open>KeyError\<close>
  skip the event; any other exception (the \<open>TypeError\<close> of comparing a naive start with
  \<open>now\<close>) leaves the loop and the method.
\<close>

fun upcoming_loop :: "int \<Rightarrow> event dict \<Rightarrow> exn + event dict" where
  "upcoming_loop now [] = Inr []"
| "upcoming_loop now ((event_id, event) # rest) =
     (if e_status event = u ''active'' then
        (case e_start_at event of
           Inl e \<Rightarrow> (if e = ValueError \<or> e = KeyError then upcoming_loop now rest else Inl e)
         | Inr start_at \<Rightarrow>
             (case aware_lt now start_at of
                Inl e \<Rightarrow> Inl e
              | Inr later \<Rightarrow>
                  (case upcoming_loop now rest of
                     Inl e \<Rightarrow> Inl e
                   | Inr found \<Rightarrow> Inr (if later then (event_id, event) # found else found))))
      else upcoming_loop now rest)"

definition get_upcoming_events :: "int \<Rightarrow> local_storage \<Rightarrow> exn + event dict" where
  "get_upcoming_events now st = upcoming_loop now (events (data st))"

fun past_loop :: "int \<Rightarrow> event dict \<Rightarrow> exn + event dict" where
  "past_loop now [] = Inr []"
| "past_loop now ((event_id, event) # rest) =
     (if e_status event = u ''active'' then
        (case e_start_at event of
           Inl e \<Rightarrow> (if e = ValueError \<or> e = KeyError then past_loop now rest else Inl e)
         | Inr start_at \<Rightarrow>
             (case le_aware start_at (now - hours 2) of
                Inl e \<Rightarrow> Inl e
              | Inr over \<Rightarrow>
                  (case past_loop now rest of
                     Inl e \<Rightarrow> Inl e
                   | Inr found \<Rightarrow> Inr (if over then (event_id, event) # found else found))))
      else past_loop now rest)"

definition get_past_events :: "int \<Rightarrow> local_storage \<Rightarrow> exn + event dict" where
  "get_past_events now st = past_loop now (events (data st))"

definition create_event :: "local_storage \<Rightarrow> event \<Rightarrow> int \<Rightarrow> pystr \<times> local_storage" where
  "create_event st event_data now =
     (let event_id = e_event_id event_data;
          stamped = event_data\<lparr>e_created_at := now, e_updated_at := now\<rparr>;
          d = data st
      in (event_id,
          save_locally Events (st\<lparr>data := d\<lparr>events := dict_set event_id stamped (events d)\<rparr>\<rparr>)))"

text \<open>\<open>update_event\<close>; the \<open>updates\<close> dictionary is given by its effect on the record.\<close>

definition update_event ::
  "local_storage \<Rightarrow> pystr \<Rightarrow> (event \<Rightarrow> event) \<Rightarrow> int \<Rightarrow> local_storage" where
  "update_event st event_id updates now =
     (case dict_get (events (data st)) event_id of
        None \<Rightarrow> st
      | Some ev \<Rightarrow>
          (let d = data st;
               ev' = (updates ev)\<lparr>e_updated_at := now\<rparr>
           in save_locally Events (st\<lparr>data := d\<lparr>events := dict_set event_id ev' (events d)\<rparr>\<rparr>)))"

subsection \<open>Users\<close>

definition get_user :: "local_storage \<Rightarrow> pyval \<Rightarrow> user option" where
  "get_user st user_id = dict_get (users (data st)) (py_str user_id)"

definition add_user :: "local_storage \<Rightarrow> user \<Rightarrow> int \<Rightarrow> local_storage" where
  "add_user st user_data now =
     (let user_id = py_str (u_user_id user_data); d = data st
      in if \<not> has_key (users d) user_id then
           save_locally Users
             (st\<lparr>data := d\<lparr>users := dict_set user_id
                 (user_data\<lparr>u_created_at := now, u_is_blacklisted := False\<rparr>) (users d)\<rparr>\<rparr>)
         else st)"

definition update_user ::
  "local_storage \<Rightarrow> pyval \<Rightarrow> (user \<Rightarrow> user) \<Rightarrow> local_storage" where
  "update_user st user_id updates =
     (let key = py_str user_id; d = data st
      in case dict_get (users d) key of
           None \<Rightarrow> st
         | Some usr \<Rightarrow>
             save_locally Users (st\<lparr>data := d\<lparr>users := dict_set key (updates usr) (users d)\<rparr>\<rparr>))"

subsection \<open>Registrations\<close>

definition get_registration :: "local_storage \<Rightarrow> pyval \<Rightarrow> registration option" where
  "get_registration st registration_id =
     dict_get (registrations (data st)) (py_str registration_id)"

definition get_all_registrations :: "local_storage \<Rightarrow> registration dict" where
  "get_all_registrations st = registrations (data st)"

definition get_registrations_count :: "local_storage \<Rightarrow> pyval \<Rightarrow> pystr \<Rightarrow> int" where
  "get_registrations_count st event_id status =
     int (length (filter (\<lambda>reg. py_str (r_event_id reg) = py_str event_id \<and> r_status reg = status)
                    (map snd (registrations (data st)))))"

definition get_waitlist_count :: "local_storage \<Rightarrow> pyval \<Rightarrow> int" where
  "get_waitlist_count st event_id = get_registrations_count st event_id (u ''waitlist'')"

definition ls_create_registration ::
  "local_storage \<Rightarrow> registration \<Rightarrow> int \<Rightarrow> pystr \<times> local_storage" where
  "ls_create_registration st registration_data now =
     (let registration_id = py_str (r_registration_id registration_data);
          stamped = registration_data\<lparr>r_created_at := now, r_updated_at := now\<rparr>;
          d = data st
      in (registration_id,
          save_locally Registrations
            (st\<lparr>data := d\<lparr>registrations := dict_set registration_id stamped (registrations d)\<rparr>\<rparr>)))"

text \<open>The \<open>updates\<close> dictionaries the callers pass to \<open>update_registration\<close>.\<close>

datatype reg_update = SetStatus pystr | SetCheckinAt int | SetQrToken pystr

fun apply_update :: "reg_update \<Rightarrow> registration \<Rightarrow> registration" where
  "apply_update (SetStatus s) reg = reg\<lparr>r_status := s\<rparr>"
| "apply_update (SetCheckinAt t) reg = reg\<lparr>r_checkin_at := Some t\<rparr>"
| "apply_update (SetQrToken t) reg = reg\<lparr>r_qr_token := Some t\<rparr>"

definition ls_update_registration ::
  "local_storage \<Rightarrow> pyval \<Rightarrow> reg_update list \<Rightarrow> int \<Rightarrow> local_storage" where
  "ls_update_registration st registration_id updates now =
     (let key = py_str registration_id; d = data st
      in case dict_get (registrations d) key of
           None \<Rightarrow> st
         | Some reg \<Rightarrow>
             (let reg' = (foldl (\<lambda>r upd. apply_update upd r) reg updates)\<lparr>r_updated_at := now\<rparr>
              in save_locally Registrations
                   (st\<lparr>data := d\<lparr>registrations := dict_set key reg' (registrations d)\<rparr>\<rparr>)))"

text \<open>
  \<open>int(s)\<close> on a key. Surrounding whitespace is ignored: the whitespace of \<open>strip()\<close>
  except the four separators U+001C to U+001F, which \<open>int\<close> rejects. Then come an optional
  sign and decimal digits, with single underscores allowed between digits; the digits may
  be those of any script (Unicode category Nd). Anything else raises \<open>ValueError\<close>
  (\<open>None\<close>). \<open>decimal_zeros\<close> lists the digit zero of every script of Unicode 14, the
  table of CPython 3.11; the nine digits that follow it have the values 1 to 9.
\<close>

definition decimal_zeros :: "nat list" where
  "decimal_zeros =
    [48, 1632, 1776, 1984, 2406, 2534, 2662, 2790, 2918, 3046,
     3174, 3302, 3430, 3558, 3664, 3792, 3872, 4160, 4240, 6112,
     6160, 6470, 6608, 6784, 6800, 6992, 7088, 7232, 7248, 42528,
     43216, 43264, 43472, 43504, 43600, 44016, 65296, 66720, 68912, 69734,
     69872, 69942, 70096, 70384, 70736, 70864, 71248, 71360, 71472, 71904,
     72016, 72784, 73040, 73120, 92768, 92864, 93008, 120782, 120792, 120802,
     120812, 120822, 123200, 123632, 125264, 130032]"

definition digit_val :: "nat \<Rightarrow> nat option" where
  "digit_val c =
     (case find (\<lambda>z. z \<le> c \<and> c \<le> z + 9) decimal_zeros of
        None \<Rightarrow> None
      | Some z \<Rightarrow> Some (c - z))"

definition int_space :: "nat \<Rightarrow> bool" where
  "int_space c = (is_space c \<and> \<not> (28 \<le> c \<and> c \<le> 31))"

definition int_strip :: "pystr \<Rightarrow> pystr" where
  "int_strip s = rev (dropWhile int_space (rev (dropWhile int_space s)))"

fun parse_digits :: "nat \<Rightarrow> pystr \<Rightarrow> nat option" where
  "parse_digits acc [] = Some acc"
| "parse_digits acc (c # cs) =
     (if c = 95 then
        (case cs of
           [] \<Rightarrow> None
         | d # ds \<Rightarrow> (if digit_val d = None then None else parse_digits acc cs))
      else case digit_val c of
             None \<Rightarrow> None
           | Some d \<Rightarrow> parse_digits (10 * acc + d) cs)"

definition parse_nat :: "pystr \<Rightarrow> nat option" where
  "parse_nat s =
     (case s of
        [] \<Rightarrow> None
      | c # cs \<Rightarrow> (case digit_val c of None \<Rightarrow> None | Some d \<Rightarrow> parse_digits d cs))"

definition int_of_str :: "pystr \<Rightarrow> int option" where
  "int_of_str s =
     (case int_strip s of
        [] \<Rightarrow> None
      | c # cs \<Rightarrow>
          (if c = 45 then map_option (\<lambda>n. - int n) (parse_nat cs)
           else if c = 43 then map_option int (parse_nat cs)
           else map_option int (parse_nat (c # cs))))"

definition get_next_registration_id :: "local_storage \<Rightarrow> int" where
  "get_next_registration_id st =
     (if registrations (data st) = [] then 1
      else foldl (\<lambda>max_id reg_id.
                    case int_of_str reg_id of None \<Rightarrow> max_id | Some i \<Rightarrow> max max_id i)
             0 (map fst (registrations (data st))) + 1)"

subsection \<open>Block-list\<close>

definition is_blacklisted :: "local_storage \<Rightarrow> pyval \<Rightarrow> bool" where
  "is_blacklisted st user_id = has_key (blacklist (data st)) (py_str user_id)"

text \<open>
  \<open>add_to_blacklist\<close>: the body of its \<open>try\<close> builds the entry, assigns it, calls
  \<open>save_locally\<close> and returns \<open>True\<close>; its handler logs and re-raises. \<open>add_to_blacklist_body\<close>
  is the body with its possible exception; none of its statements raises on an \<open>int\<close> or
  \<open>str\<close> identifier, and \<open>save_locally\<close> returns normally whatever the file system does.
\<close>

definition add_to_blacklist_body ::
  "local_storage \<Rightarrow> pyval \<Rightarrow> pystr \<Rightarrow> pystr \<Rightarrow> int \<Rightarrow> exn + bool \<times> local_storage" where
  "add_to_blacklist_body st user_id reason added_by now =
     (let key = py_str user_id;
          entry = \<lparr> b_user_id = key, b_reason = reason, b_added_by = added_by, b_added_at = now \<rparr>;
          d = data st
      in Inr (True,
              save_locally Blacklist (st\<lparr>data := d\<lparr>blacklist := dict_set key entry (blacklist d)\<rparr>\<rparr>)))"

definition add_to_blacklist ::
  "local_storage \<Rightarrow> pyval \<Rightarrow> pystr \<Rightarrow> pystr \<Rightarrow> int \<Rightarrow> exn + bool \<times> local_storage" where
  "add_to_blacklist st user_id reason added_by now =
     (case add_to_blacklist_body st user_id reason added_by now of
        Inl e \<Rightarrow> Inl e
      | Inr r \<Rightarrow> Inr r)"

definition remove_from_blacklist :: "local_storage \<Rightarrow> pyval \<Rightarrow> local_storage" where
  "remove_from_blacklist st user_id =
     (let key = py_str user_id; d = data st
      in if has_key (blacklist d) key
         then save_locally Blacklist (st\<lparr>data := d\<lparr>blacklist := dict_del key (blacklist d)\<rparr>\<rparr>)
         else st)"

subsection \<open>Reminders\<close>

definition create_reminder :: "local_storage \<Rightarrow> reminder \<Rightarrow> local_storage" where
  "create_reminder st reminder_data =
     (let reminder_id = py_str (m_event_id reminder_data) @ u ''_''
            @ py_str (m_user_id reminder_data) @ u ''_'' @ m_type reminder_data;
          d = data st
      in save_locally Reminders
           (st\<lparr>data := d\<lparr>reminders := dict_set reminder_id reminder_data (reminders d)\<rparr>\<rparr>))"

definition mark_reminder_sent :: "local_storage \<Rightarrow> pystr \<Rightarrow> int \<Rightarrow> local_storage" where
  "mark_reminder_sent st reminder_id now =
     (let d = data st
      in case dict_get (reminders d) reminder_id of
           None \<Rightarrow> st
         | Some rem \<Rightarrow>
             save_locally Reminders
               (st\<lparr>data := d\<lparr>reminders :=
                    dict_set reminder_id (rem\<lparr>m_sent_at := Some now\<rparr>) (reminders d)\<rparr>\<rparr>))"

section \<open>sheets.py: the business operations of SheetsManager\<close>

text \<open>
  \<open>SheetsManager.create_registration\<close>. The result is the triple
  \<open>(registration_id, status, waitlist_position)\<close>, or \<open>None\<close> for \<open>(None, None, None)\<close>.
  \<open>get_registrations_count\<close> is called with its default status \<open>'registered'\<close>.
\<close>

definition sm_create_registration ::
  "local_storage \<Rightarrow> pyval \<Rightarrow> pyval \<Rightarrow> pystr \<Rightarrow> pystr \<Rightarrow> int
     \<Rightarrow> (int \<times> pystr \<times> int option) option \<times> local_storage" where
  "sm_create_registration st user_id event_id full_name qr_token now =
     (let registration_id = get_next_registration_id st
      in case get_event st event_id of
           None \<Rightarrow> (None, st)
         | Some event \<Rightarrow>
             (let registered_count = get_registrations_count st event_id (u ''registered'');
                  capacity = e_capacity event;
                  full = (registered_count \<ge> capacity);
                  status = (if full then u ''waitlist'' else u ''registered'');
                  waitlist_position =
                    (if full then Some (get_waitlist_count st event_id + 1) else None);
                  registration_data =
                    \<lparr> r_registration_id = PInt registration_id, r_event_id = event_id,
                      r_user_id = user_id, r_full_name = full_name, r_status = status,
                      r_waitlist_position = waitlist_position, r_qr_token = Some qr_token,
                      r_checkin_at = None, r_created_at = now, r_updated_at = now \<rparr>
              in (Some (registration_id, status, waitlist_position),
                  snd (ls_create_registration st registration_data now))))"

definition sm_update_registration ::
  "local_storage \<Rightarrow> pyval \<Rightarrow> reg_update list \<Rightarrow> int \<Rightarrow> local_storage" where
  "sm_update_registration st registration_id updates now =
     ls_update_registration st registration_id updates now"

definition update_registration_status ::
  "local_storage \<Rightarrow> pyval \<Rightarrow> pystr \<Rightarrow> int option \<Rightarrow> int \<Rightarrow> local_storage" where
  "update_registration_status st registration_id status checkin_at now =
     ls_update_registration st registration_id
       (SetStatus status # (case checkin_at of None \<Rightarrow> [] | Some t \<Rightarrow> [SetCheckinAt t])) now"

definition cancel_registration :: "local_storage \<Rightarrow> pyval \<Rightarrow> int \<Rightarrow> local_storage" where
  "cancel_registration st registration_id now =
     update_registration_status st registration_id (u ''cancelled'') None now"

text \<open>\<open>SheetsManager.add_to_blacklist\<close> turns an exception of the store into \<open>False\<close>.\<close>

definition sm_add_to_blacklist ::
  "local_storage \<Rightarrow> pyval \<Rightarrow> pystr \<Rightarrow> pystr \<Rightarrow> int \<Rightarrow> bool \<times> local_storage" where
  "sm_add_to_blacklist st user_id reason added_by now =
     (case add_to_blacklist st user_id reason added_by now of
        Inl e \<Rightarrow> (False, st\<lparr>logged := logged st @ [BlacklistAddError e, FacadeBlacklistError e]\<rparr>)
      | Inr (r, st') \<Rightarrow> (True, st'))"

text \<open>Successive calls of \<open>create_registration\<close> for one event, one per
  \<open>(user_id, full_name, qr_token)\<close>, with the outcome of each call.\<close>

fun register_all ::
  "local_storage \<Rightarrow> pyval \<Rightarrow> (pyval \<times> pystr \<times> pystr) list \<Rightarrow> int
     \<Rightarrow> (int \<times> pystr \<times> int option) option list" where
  "register_all st event_id [] now = []"
| "register_all st event_id ((user_id, full_name, qr_token) # rest) now =
     (case sm_create_registration st user_id event_id full_name qr_token now of
        (outcome, st') \<Rightarrow> outcome # register_all st' event_id rest now)"

text \<open>The status \<open>create_registration\<close> gives a new registration of an event.\<close>

definition new_status :: "local_storage \<Rightarrow> pyval \<Rightarrow> event \<Rightarrow> pystr" where
  "new_status st event_id ev =
     (if get_registrations_count st event_id (u ''registered'') < e_capacity ev
      then u ''registered'' else u ''waitlist'')"


section \<open>sheets.py: mirroring the store into the spreadsheet\<close>

text \<open>
  What is written to the spreadsheet depends on the stored records only as mappings from
  field names to values, so here a stored value is either such a mapping or something
  else (\<open>isinstance(item_data, dict)\<close> fails). A tab is the list of its rows. The calls to
  the spreadsheet service are taken to succeed: \<open>clear\<close> empties the tab, \<open>append_row\<close>
  and \<open>append_rows\<close> add rows below the last one.
\<close>

datatype cell = CNone | CBool bool | CInt int | CStr pystr

datatype item = Record "cell dict" | NotRecord cell

type_synonym tab = "cell list list"

definition clear :: "tab \<Rightarrow> tab" where
  "clear sheet = []"

definition append_row :: "tab \<Rightarrow> cell list \<Rightarrow> tab" where
  "append_row sheet row = sheet @ [row]"

definition append_rows :: "tab \<Rightarrow> cell list list \<Rightarrow> tab" where
  "append_rows sheet rows = sheet @ rows"

text \<open>The loop building \<open>rows_to_update\<close>; a missing field gives the empty string.\<close>

fun rows_to_update :: "item dict \<Rightarrow> pystr list \<Rightarrow> cell list list" where
  "rows_to_update [] headers = []"
| "rows_to_update ((item_id, Record item_data) # rest) headers =
     map (\<lambda>header. get_default (dict_get item_data header) (CStr [])) headers
       # rows_to_update rest headers"
| "rows_to_update ((item_id, NotRecord v) # rest) headers = rows_to_update rest headers"

text \<open>
  \<open>_sync_to_sheet\<close>. \<open>headers[0]\<close> raises \<open>IndexError\<close> on an empty header list, which the
  handler of the method catches. The records read back with \<open>get_all_records\<close> are not
  used afterwards.
\<close>

definition sync_to_sheet :: "tab dict \<Rightarrow> pystr \<Rightarrow> item dict \<Rightarrow> pystr list \<Rightarrow> tab dict" where
  "sync_to_sheet sheets sheet_name data_items headers =
     (case dict_get sheets sheet_name of
        None \<Rightarrow> sheets
      | Some sheet \<Rightarrow>
          (case headers of
             [] \<Rightarrow> sheets
           | key_field # other_fields \<Rightarrow>
               (let rows = rows_to_update data_items headers
                in if rows \<noteq> []
                   then dict_set sheet_name
                          (append_rows (append_row (clear sheet) (map CStr headers)) rows) sheets
                   else sheets)))"

text \<open>The header lists of \<open>sync_all_data\<close>.\<close>

definition events_headers :: "pystr list" where
  "events_headers = map u [''event_id'', ''title'', ''description'', ''start_at'', ''place'',
     ''capacity'', ''media_file_id'', ''media_type'', ''status'',
     ''checkin_window_start_minutes'', ''checkin_window_end_minutes'', ''created_at'',
     ''updated_at'']"

definition users_headers :: "pystr list" where
  "users_headers = map u [''user_id'', ''username'', ''full_name'', ''created_at'',
     ''is_blacklisted'']"

definition registrations_headers :: "pystr list" where
  "registrations_headers = map u [''registration_id'', ''event_id'', ''user_id'', ''full_name'',
     ''status'', ''waitlist_position'', ''qr_token'', ''checkin_at'', ''created_at'',
     ''updated_at'']"

definition blacklist_headers :: "pystr list" where
  "blacklist_headers = map u [''user_id'', ''reason'', ''added_by'', ''added_at'']"

definition reminders_headers :: "pystr list" where
  "reminders_headers = map u [''event_id'', ''user_id'', ''scheduled_for'', ''type'', ''sent_at'']"

text \<open>The five collections as \<open>sync_all_data\<close> fetches them from the store.\<close>

record snapshot =
  s_events :: "item dict"
  s_users :: "item dict"
  s_registrations :: "item dict"
  s_blacklist :: "item dict"
  s_reminders :: "item dict"

text \<open>\<open>sync_all_data\<close>; \<open>self.sheets\<close> is \<open>None\<close> when the spreadsheet could not be opened.\<close>

definition sync_all_data :: "tab dict option \<Rightarrow> snapshot \<Rightarrow> tab dict option" where
  "sync_all_data sheets snap =
     (case sheets of
        None \<Rightarrow> None
      | Some sh \<Rightarrow>
          (if sh = [] then Some sh
           else
             (let sh1 = sync_to_sheet sh (u ''events'') (s_events snap) events_headers;
                  sh2 = sync_to_sheet sh1 (u ''users'') (s_users snap) users_headers;
                  sh3 = sync_to_sheet sh2 (u ''registrations'') (s_registrations snap)
                          registrations_headers;
                  sh4 = sync_to_sheet sh3 (u ''blacklist'') (s_blacklist snap) blacklist_headers;
                  sh5 = sync_to_sheet sh4 (u ''reminders'') (s_reminders snap) reminders_headers
              in Some sh5)))"

section \<open>main.py: conversation handlers\<close>

text \<open>
  What the handlers read from outside the store: the configured secret, the user name
  \<open>(await bot.get_me()).username\<close> (a network call, which may raise), whether the QR
  library renders an image (\<open>generate_qr_code_image\<close> returns \<open>None\<close> on any exception),
  and the chats to which sending a message raises (users who blocked the bot).
\<close>

record env =
  SECRET_KEY :: pystr
  bot_username :: "exn + pystr"
  qr_renders :: bool
  send_fails :: "pyval list"

text \<open>\<open>generate_qr_code_image\<close>; an image is represented by the text it encodes.\<close>

definition generate_qr_code_image :: "env \<Rightarrow> pystr \<Rightarrow> pystr option" where
  "generate_qr_code_image E qr_data = (if qr_renders E then Some qr_data else None)"

text \<open>
  The messages of the handlers, named by their meaning (the texts are Russian):
  \<^item> \<open>PlaceAlreadyTaken\<close>: "unfortunately the place is already taken, you stay on the waitlist";
  \<^item> \<open>RegistrationSucceeded title start\<close>: "you have registered for the event", with title and date;
  \<^item> \<open>QrPhoto deeplink\<close>: the photo of the QR code of the check-in link;
  \<^item> \<open>RegistrationSucceededPlain event_id\<close>: "you have registered for event ...", without code;
  \<^item> \<open>CallbackAnswered\<close>: the empty \<open>callback.answer()\<close>;
  \<^item> \<open>ActionUnavailable\<close>: "action unavailable, contact the manager";
  \<^item> \<open>RegistrationClosed\<close>: "registration is closed, the event has passed";
  \<^item> \<open>AlreadyRegistered\<close>, \<open>OnWaitlist position\<close>: the answers for an existing registration;
  \<^item> \<open>AskFullName\<close>: the prompt for name and surname;
  \<^item> \<open>NoActiveRegistrations\<close>, \<open>EventNotFound\<close>, \<open>EventPassed\<close>, \<open>QrFailed\<close>, \<open>ErrorOccurred\<close>:
    the refusals of the proof-code retrieval;
  \<^item> \<open>QrCard deeplink title start place\<close>: the QR photo with the event caption.
\<close>

datatype reply =
    PlaceAlreadyTaken
  | RegistrationSucceeded pystr datetime
  | QrPhoto pystr
  | RegistrationSucceededPlain pyval
  | CallbackAnswered
  | ActionUnavailable
  | RegistrationClosed
  | AlreadyRegistered
  | OnWaitlist "int option"
  | AskFullName
  | NoActiveRegistrations
  | EventNotFound
  | EventPassed
  | QrFailed
  | ErrorOccurred
  | QrCard pystr pystr datetime pystr

text \<open>\<open>xs[i]\<close> on a list of parts.\<close>

definition item_at :: "'a list \<Rightarrow> nat \<Rightarrow> exn + 'a" where
  "item_at xs i = (if i < length xs then Inr (xs ! i) else Inl IndexError)"

text \<open>The check-in link \<open>https://t.me/<bot>?start=chk_<registration_id>_<token>\<close>.\<close>

definition checkin_deeplink :: "pystr \<Rightarrow> pystr \<Rightarrow> pystr \<Rightarrow> pystr" where
  "checkin_deeplink username registration_id qr_token =
     u ''https://t.me/'' @ username @ u ''?start=chk_'' @ registration_id @ u ''_'' @ qr_token"

text \<open>The token \<open>process_fullname\<close> generates before it creates the registration, and
  \<open>take_place_from_waitlist\<close> generates again: the message is built from
  \<open>reg_<user_id>_<event_id>\<close>, the event and the user.\<close>

definition provisional_qr_token :: "env \<Rightarrow> pyval \<Rightarrow> pyval \<Rightarrow> pystr" where
  "provisional_qr_token E user_id event_id =
     generate_qr_token (SECRET_KEY E)
       (PStr (u ''reg_'' @ py_str user_id @ u ''_'' @ py_str event_id)) event_id user_id"

text \<open>
  The part of \<open>take_place_from_waitlist\<close> inside its \<open>try\<close>, after the status update: the
  token is regenerated and stored, then the messages are built. The result is the state
  reached and either the messages sent or the exception that ended the block.
\<close>

definition send_place_qr ::
  "env \<Rightarrow> local_storage \<Rightarrow> pystr \<Rightarrow> registration \<Rightarrow> int \<Rightarrow> local_storage \<times> (exn + reply list)" where
  "send_place_qr E st registration_id registration now =
     (let event = get_event st (r_event_id registration);
          user_id = r_user_id registration;
          qr_token = provisional_qr_token E user_id (r_event_id registration);
          st' = sm_update_registration st (PStr registration_id) [SetQrToken qr_token] now
      in case bot_username E of
           Inl e \<Rightarrow> (st', Inl e)
         | Inr username \<Rightarrow>
             (let deeplink = checkin_deeplink username registration_id qr_token
              in case (generate_qr_code_image E deeplink, event) of
                   (Some qr_image, Some ev) \<Rightarrow>
                     (case e_start_at ev of
                        Inl e \<Rightarrow> (st', Inl e)
                      | Inr start_at \<Rightarrow>
                          (st', Inr [RegistrationSucceeded (e_title ev) start_at, QrPhoto qr_image]))
                 | _ \<Rightarrow> (st', Inr [RegistrationSucceededPlain (r_event_id registration)])))"

text \<open>\<open>take_place_from_waitlist\<close>; \<open>callback_data\<close> is \<open>take_place_<registration_id>\<close>.\<close>

definition take_place_from_waitlist ::
  "env \<Rightarrow> local_storage \<Rightarrow> pystr \<Rightarrow> int \<Rightarrow> exn + reply list \<times> local_storage" where
  "take_place_from_waitlist E st callback_data now =
     (case item_at (split_char 95 callback_data) 2 of
        Inl e \<Rightarrow> Inl e
      | Inr registration_id \<Rightarrow>
          (case get_registration st (PStr registration_id) of
             None \<Rightarrow> Inr ([PlaceAlreadyTaken], st)
           | Some registration \<Rightarrow>
               (if r_status registration \<noteq> u ''waitlist'' then Inr ([PlaceAlreadyTaken], st)
                else
                  (let st1 = update_registration_status st (PStr registration_id)
                               (u ''registered'') None now
                   in case send_place_qr E st1 registration_id registration now of
                        (st2, Inr replies) \<Rightarrow> Inr (replies @ [CallbackAnswered], st2)
                      | (st2, Inl e) \<Rightarrow>
                          Inr ([RegistrationSucceededPlain (r_event_id registration),
                                CallbackAnswered], st2)))))"

subsection \<open>Starting a registration\<close>

text \<open>\<open>LocalStorage.get_user_registration\<close>: the first registration of the user for the
  event that is \<open>registered\<close>, \<open>waitlist\<close> or \<open>attended\<close>.\<close>

definition get_user_registration ::
  "local_storage \<Rightarrow> pyval \<Rightarrow> pyval \<Rightarrow> registration option" where
  "get_user_registration st user_id event_id =
     find (\<lambda>reg. py_str (r_user_id reg) = py_str user_id
                 \<and> py_str (r_event_id reg) = py_str event_id
                 \<and> r_status reg \<in> set [u ''registered'', u ''waitlist'', u ''attended''])
          (map snd (registrations (data st)))"

text \<open>The dialogue state kept per user by the dispatcher.\<close>

datatype fsm_state = NoState | WaitingFullname pyval

text \<open>
  \<open>start_registration\<close>, the handler of the callbacks \<open>register_<event_id>\<close>. It has no
  \<open>try\<close>: an exception of the date handling leaves the handler.
\<close>

definition start_registration ::
  "local_storage \<Rightarrow> pyval \<Rightarrow> pystr \<Rightarrow> fsm_state \<Rightarrow> int \<Rightarrow> exn + reply list \<times> fsm_state" where
  "start_registration st user_id callback_data state now =
     (case item_at (split_char 95 callback_data) 1 of
        Inl e \<Rightarrow> Inl e
      | Inr event_id \<Rightarrow>
          (if is_blacklisted st user_id then Inr ([ActionUnavailable], state)
           else
             (case (case get_event st (PStr event_id) of
                      None \<Rightarrow> Inr False
                    | Some event \<Rightarrow>
                        (case e_start_at event of
                           Inl e \<Rightarrow> Inl e
                         | Inr start_at \<Rightarrow> lt_aware start_at (now - hours 2))) of
                Inl e \<Rightarrow> Inl e
              | Inr passed \<Rightarrow>
                  (if passed then Inr ([RegistrationClosed], state)
                   else
                     (case get_user_registration st user_id (PStr event_id) of
                        Some existing_reg \<Rightarrow>
                          (if r_status existing_reg = u ''registered''
                           then Inr ([AlreadyRegistered], state)
                           else if r_status existing_reg = u ''waitlist''
                           then Inr ([OnWaitlist (r_waitlist_position existing_reg)], state)
                           else Inr ([], state))
                      | None \<Rightarrow> Inr ([AskFullName], WaitingFullname (PStr event_id)))))))"

subsection \<open>Self-service retrieval of the proof code\<close>

text \<open>
  \<open>_generate_and_send_qr\<close>, called by \<open>/my_qr\<close> and by the "my QR code" button. The whole
  body is in a \<open>try\<close> whose handler sends \<open>ErrorOccurred\<close>; a token stored before the
  exception stays stored.
\<close>

definition generate_and_send_qr ::
  "env \<Rightarrow> local_storage \<Rightarrow> pyval \<Rightarrow> int \<Rightarrow> reply list \<times> local_storage" where
  "generate_and_send_qr E st user_id now =
     (let active_registrations =
            filter (\<lambda>reg. py_str (r_user_id reg) = py_str user_id
                          \<and> r_status reg \<in> set [u ''registered'', u ''attended''])
                   (map snd (get_all_registrations st))
      in if active_registrations = [] then ([NoActiveRegistrations], st)
         else
           (let registration = last active_registrations;
                event_id = r_event_id registration
            in case get_event st event_id of
                 None \<Rightarrow> ([EventNotFound], st)
               | Some event \<Rightarrow>
                   (case e_start_at event of
                      Inl e \<Rightarrow> ([ErrorOccurred], st)
                    | Inr start_at \<Rightarrow>
                        (case lt_aware start_at (now - hours 2) of
                           Inl e \<Rightarrow> ([ErrorOccurred], st)
                         | Inr passed \<Rightarrow>
                             (if passed then ([EventPassed], st)
                              else
                                (let stored = get_default (r_qr_token registration) [];
                                     renew = (stored = [] \<or> stored = u ''temp_token'');
                                     qr_token =
                                       (if renew
                                        then generate_qr_token (SECRET_KEY E)
                                               (r_registration_id registration) event_id user_id
                                        else stored);
                                     st' =
                                       (if renew
                                        then sm_update_registration st
                                               (r_registration_id registration)
                                               [SetQrToken qr_token] now
                                        else st)
                                 in case bot_username E of
                                      Inl e \<Rightarrow> ([ErrorOccurred], st')
                                    | Inr username \<Rightarrow>
                                        (case generate_qr_code_image E
                                                (checkin_deeplink username
                                                   (py_str (r_registration_id registration))
                                                   qr_token) of
                                           Some qr_image \<Rightarrow>
                                             ([QrCard qr_image (e_title event) start_at
                                                 (e_place event)], st')
                                         | None \<Rightarrow> ([QrFailed], st'))))))))"

section \<open>broadcast.py\<close>

text \<open>
  An entry of the list \<open>user_manager.get_all_users()\<close> returns: a dictionary with or
  without \<open>user_id\<close>, or something that is not a dictionary. A delivery is one successful
  call of \<open>send_photo\<close>, \<open>send_video\<close>, \<open>send_document\<close> or \<open>send_message\<close>.
\<close>

datatype registry_item = UserDict "pyval option" | NotADict

datatype delivery =
    SendPhoto pyval pystr pystr
  | SendVideo pyval pystr pystr
  | SendDocument pyval pystr pystr
  | SendMessage pyval pystr

fun recipient :: "delivery \<Rightarrow> pyval" where
  "recipient (SendPhoto user_id media caption) = user_id"
| "recipient (SendVideo user_id media caption) = user_id"
| "recipient (SendDocument user_id media caption) = user_id"
| "recipient (SendMessage user_id text) = user_id"

definition event_post :: "event \<Rightarrow> pyval \<Rightarrow> delivery" where
  "event_post event user_id =
     (let post_text = get_default (e_description event) (u ''**'' @ e_title event @ u ''**'');
          media_file_id = e_media_file_id event;
          media_type = e_media_type event
      in if media_file_id \<noteq> [] \<and> media_type \<noteq> [] then
           (if media_type = u ''photo'' then SendPhoto user_id media_file_id post_text
            else if media_type = u ''video'' then SendVideo user_id media_file_id post_text
            else if media_type = u ''document'' then SendDocument user_id media_file_id post_text
            else SendMessage user_id post_text)
         else SendMessage user_id post_text)"

text \<open>The loop over the users: the deliveries made, \<open>success_count\<close> and \<open>failed_count\<close>.\<close>

fun broadcast_loop ::
  "env \<Rightarrow> local_storage \<Rightarrow> event \<Rightarrow> registry_item list \<Rightarrow> delivery list \<times> nat \<times> nat" where
  "broadcast_loop E st event [] = ([], 0, 0)"
| "broadcast_loop E st event (NotADict # rest) = broadcast_loop E st event rest"
| "broadcast_loop E st event (UserDict None # rest) = broadcast_loop E st event rest"
| "broadcast_loop E st event (UserDict (Some user_id) # rest) =
     (if \<not> truthy user_id then broadcast_loop E st event rest
      else if is_blacklisted st user_id then broadcast_loop E st event rest
      else
        (case broadcast_loop E st event rest of
           (sent, success_count, failed_count) \<Rightarrow>
             (if user_id \<in> set (send_fails E) then (sent, success_count, Suc failed_count)
              else (event_post event user_id # sent, Suc success_count, failed_count))))"

text \<open>
  \<open>broadcast_event\<close>: \<open>attempts\<close> is the number of attempts left of the \<open>max_retries\<close>.
  \<open>None\<close> means that nothing was broadcast. \<open>ValueError\<close> and \<open>KeyError\<close> of the date stop
  the broadcast; any other exception is caught by the handler of the attempt, and the
  next attempt starts.
\<close>

fun broadcast_event ::
  "env \<Rightarrow> local_storage \<Rightarrow> registry_item list \<Rightarrow> pyval \<Rightarrow> int \<Rightarrow> nat
     \<Rightarrow> (delivery list \<times> nat \<times> nat) option" where
  "broadcast_event E st users_data event_id now 0 = None"
| "broadcast_event E st users_data event_id now (Suc attempts) =
     (case get_event st event_id of
        None \<Rightarrow> (if attempts = 0 then None
                  else broadcast_event E st users_data event_id now attempts)
      | Some event \<Rightarrow>
          (case e_start_at event of
             Inl e \<Rightarrow> (if e = ValueError \<or> e = KeyError then None
                        else broadcast_event E st users_data event_id now attempts)
           | Inr start_at \<Rightarrow>
               (case lt_aware start_at (now - hours 2) of
                  Inl e \<Rightarrow> broadcast_event E st users_data event_id now attempts
                | Inr passed \<Rightarrow>
                    (if passed then None
                     else Some (broadcast_loop E st event users_data)))))"

section \<open>Concrete values used in the examples\<close>

definition default_secret_key :: pystr where
  "default_secret_key = u ''default_secret_key''"

text \<open>Event \<open>001\<close> with capacity 2, starting at instant \<open>start\<close> in Moscow time (UTC+3),
  window offsets absent.\<close>

definition event_001 :: "int \<Rightarrow> event" where
  "event_001 start =
     \<lparr> e_event_id = u ''001'', e_title = u ''Meetup'', e_description = Some [],
       e_start_at = Inr (Aware start (hours 3)), e_place = [], e_capacity = 2,
       e_media_file_id = [], e_media_type = [], e_status = u ''active'',
       e_checkin_window_start_minutes = None, e_checkin_window_end_minutes = None,
       e_created_at = 0, e_updated_at = 0 \<rparr>"

text \<open>A store holding event \<open>001\<close> and the given registrations; every file is writable.\<close>

definition store_001 :: "registration dict \<Rightarrow> local_storage" where
  "store_001 regs =
     (let c = \<lparr> events = [(u ''001'', event_001 1000000000)], users = [],
                 registrations = regs, blacklist = [], reminders = [] \<rparr>
      in \<lparr> data = c, files = disk_of c, faults = [], logged = [] \<rparr>)"

text \<open>A registration for event \<open>001\<close> as \<open>create_registration\<close> stores it.\<close>

definition reg_001 :: "int \<Rightarrow> int \<Rightarrow> pystr \<Rightarrow> int option \<Rightarrow> pystr \<Rightarrow> pystr \<times> registration" where
  "reg_001 rid uid status pos token =
     (str_int rid,
      \<lparr> r_registration_id = PInt rid, r_event_id = PStr (u ''001''), r_user_id = PInt uid,
        r_full_name = u ''Ivan Petrov'', r_status = status, r_waitlist_position = pos,
        r_qr_token = Some token, r_checkin_at = None, r_created_at = 0, r_updated_at = 0 \<rparr>)"


text \<open>Store \<open>001\<close> when \<open>blacklist.json\<close> cannot be opened for writing, and when the dump
  into it fails.\<close>

definition store_readonly_blacklist :: local_storage where
  "store_readonly_blacklist = (store_001 [])\<lparr>faults := [(Blacklist, OpenFails)]\<rparr>"

definition store_failing_dump :: local_storage where
  "store_failing_dump = (store_001 [])\<lparr>faults := [(Blacklist, DumpFails)]\<rparr>"

text \<open>Three active events starting one hour after, three hours before and one hour
  before \<open>now\<close>.\<close>

definition store_three_events :: "int \<Rightarrow> local_storage" where
  "store_three_events now =
     (let c = \<lparr> events = [(u ''001'', event_001 (now + hours 1)),
                           (u ''002'', (event_001 (now - hours 3))\<lparr>e_event_id := u ''002''\<rparr>),
                           (u ''003'', (event_001 (now - hours 1))\<lparr>e_event_id := u ''003''\<rparr>)],
                 users = [], registrations = [], blacklist = [], reminders = [] \<rparr>
      in \<lparr> data = c, files = disk_of c, faults = [], logged = [] \<rparr>)"

text \<open>A spreadsheet whose \<open>blacklist\<close> tab still shows one entry, and a snapshot of a store
  with one user and an empty block-list.\<close>

definition stale_sheets :: "tab dict" where
  "stale_sheets =
     [(u ''users'', []),
      (u ''blacklist'', [map CStr blacklist_headers,
                          [CStr (u ''7''), CStr (u ''spam''), CStr (u ''1''), CStr (u ''2025'')]])]"

definition one_user_snapshot :: snapshot where
  "one_user_snapshot =
     \<lparr> s_events = [],
       s_users = [(u ''7'', Record [(u ''user_id'', CInt 7), (u ''full_name'', CStr (u ''Ivan Petrov''))])],
       s_registrations = [], s_blacklist = [], s_reminders = [] \<rparr>"

text \<open>An environment with the default secret, a reachable bot and a working QR library.\<close>

definition env_0 :: env where
  "env_0 = \<lparr> SECRET_KEY = default_secret_key, bot_username = Inr (u ''eventbot''),
             qr_renders = True, send_fails = [] \<rparr>"

text \<open>Event \<open>001\<close> (capacity 2) with both places taken, and the state after user 13 has
  registered as \<open>process_fullname\<close> does it: with the provisional token.\<close>

definition store_full :: local_storage where
  "store_full = store_001 [reg_001 1 11 (u ''registered'') None (u ''t1''),
                           reg_001 2 12 (u ''registered'') None (u ''t2'')]"

definition store_waiting :: local_storage where
  "store_waiting =
     snd (sm_create_registration store_full (PInt 13) (PStr (u ''001'')) (u ''Oleg Kim'')
            (provisional_qr_token env_0 (PInt 13) (PStr (u ''001''))) 0)"

text \<open>The registration of user 13 in \<open>store_waiting\<close>.\<close>

definition waiting_registration :: registration where
  "waiting_registration =
     \<lparr> r_registration_id = PInt 3, r_event_id = PStr (u ''001''), r_user_id = PInt 13,
       r_full_name = u ''Oleg Kim'', r_status = u ''waitlist'', r_waitlist_position = Some 1,
       r_qr_token = Some (provisional_qr_token env_0 (PInt 13) (PStr (u ''001''))),
       r_checkin_at = None, r_created_at = 0, r_updated_at = 0 \<rparr>"

text \<open>User 13 holds a \<open>registered\<close> registration for event 001 and is on the block-list.\<close>

definition store_blocked :: local_storage where
  "store_blocked =
     (let c = \<lparr> events = [(u ''001'', event_001 1000000000)], users = [],
                 registrations = [reg_001 1 13 (u ''registered'') None (u ''tok'')],
                 blacklist = [(u ''13'', \<lparr> b_user_id = u ''13'', b_reason = u ''spam'',
                                            b_added_by = u ''1458704301'', b_added_at = 0 \<rparr>)],
                 reminders = [] \<rparr>
      in \<lparr> data = c, files = disk_of c, faults = [], logged = [] \<rparr>)"

text \<open>An instant whose Moscow wall-clock time is one hour before \<open>datetime.max\<close>.\<close>

definition last_hour :: int where
  "last_hour = max_datetime - hours 3 - minutes 60"

section \<open>Facts about strings and tokens\<close>

lemma u_append: "u (a @ b) = u a @ u b"
  by (simp add: u_def)

lemma u_eq_iff: "u a = u b \<longleftrightarrow> a = b"
  by (simp add: u_def inj_map_eq_map inj_on_def)

lemma length_u: "length (u s) = length s"
  by (simp add: u_def)









lemma token_length: "length (generate_qr_token key r e v) \<le> 16"
proof -
  have "length (remove_char a (remove_char b (remove_char c (take 16 xs)))) \<le> 16" for a b c xs
  proof -
    have "length (remove_char a (remove_char b (remove_char c (take 16 xs))))
            \<le> length (take 16 xs)"
      unfolding remove_char_def
      by (meson length_filter_le order_trans)
    then show ?thesis by simp
  qed
  then show ?thesis
    by (simp add: generate_qr_token_def u_def split: sum.splits)
qed

lemma set_remove_char: "set (remove_char c s) = set s - {c}"
  by (auto simp: remove_char_def)

text \<open>On the normal path (both encodings succeed) the three characters are gone.\<close>

lemma token_normal_chars:
  assumes "encode (token_data r e v) = Inr d" and "encode key = Inr k"
  shows "61 \<notin> set (generate_qr_token key r e v)"
    and "95 \<notin> set (generate_qr_token key r e v)"
    and "45 \<notin> set (generate_qr_token key r e v)"
  using assms
  by (simp_all add: generate_qr_token_def set_remove_char)

lemma token_fallback:
  "generate_qr_token key r e v = u ''default_token'' \<longleftrightarrow>
     \<not> (\<exists>d k. encode (token_data r e v) = Inr d \<and> encode key = Inr k)"
proof (cases "\<exists>d k. encode (token_data r e v) = Inr d \<and> encode key = Inr k")
  case True
  then obtain d k where dk: "encode (token_data r e v) = Inr d" "encode key = Inr k" by blast
  have "95 \<in> set (u ''default_token'')" by (simp add: u_def)
  with token_normal_chars(2) [OF dk] have "generate_qr_token key r e v \<noteq> u ''default_token''"
    by metis
  with True show ?thesis by simp
next
  case False
  then show ?thesis
    by (auto simp: generate_qr_token_def split: sum.splits)
qed

subsection \<open>Splitting the deep-link payload\<close>

lemma split_char_no_sep: "c \<notin> set s \<Longrightarrow> split_char c s = [s]"
proof -
  assume "c \<notin> set s"
  then have t: "takeWhile (\<lambda>x. x \<noteq> c) s = s" and d: "dropWhile (\<lambda>x. x \<noteq> c) s = []"
    by (auto simp: takeWhile_eq_all_conv dropWhile_eq_Nil_conv)
  show ?thesis by (subst split_char.simps) (simp only: t d list.case)
qed

lemma split_char_append:
  "c \<notin> set a \<Longrightarrow> split_char c (a @ c # rest) = a # split_char c rest"
proof -
  assume "c \<notin> set a"
  then have t: "takeWhile (\<lambda>x. x \<noteq> c) (a @ c # rest) = a"
    and d: "dropWhile (\<lambda>x. x \<noteq> c) (a @ c # rest) = c # rest"
    by (auto simp: takeWhile_tail dropWhile_append)
  show ?thesis by (subst split_char.simps) (simp only: t d list.case)
qed

lemma split_chk:
  assumes "95 \<notin> set rid" and "95 \<notin> set tok"
  shows "split_char 95 (u ''chk_'' @ rid @ u ''_'' @ tok) = [u ''chk'', rid, tok]"
proof -
  have chk: "u ''chk_'' = u ''chk'' @ [95]" "u ''_'' = [95]" "95 \<notin> set (u ''chk'')"
    by (simp_all add: u_def)
  have "split_char 95 (u ''chk'' @ 95 # (rid @ 95 # tok))
          = u ''chk'' # split_char 95 (rid @ 95 # tok)"
    using chk(3) by (rule split_char_append)
  also have "split_char 95 (rid @ 95 # tok) = rid # split_char 95 tok"
    using assms(1) by (rule split_char_append)
  also have "split_char 95 tok = [tok]"
    using assms(2) by (rule split_char_no_sep)
  finally show ?thesis by (simp add: chk(1,2))
qed

section \<open>Proof tokens: round trip and shape\<close>


lemma token_fallback_isl:
  "generate_qr_token key r e v = u ''default_token'' \<longleftrightarrow>
     isl (encode (token_data r e v)) \<or> isl (encode key)"
  unfolding token_fallback
  by (cases "encode (token_data r e v)"; cases "encode key") simp_all

lemma default_token_chars:
  "61 \<notin> set (u ''default_token'')" "45 \<notin> set (u ''default_token'')"
  "95 \<in> set (u ''default_token'')"
  by (simp_all add: u_def)

lemma token_no_eq_dash:
  "61 \<notin> set (generate_qr_token key r e v)" "45 \<notin> set (generate_qr_token key r e v)"
  by (simp_all add: generate_qr_token_def set_remove_char default_token_chars split: sum.splits)

lemma token_no_underscore:
  "generate_qr_token key r e v \<noteq> u ''default_token'' \<Longrightarrow> 95 \<notin> set (generate_qr_token key r e v)"
  by (auto simp: generate_qr_token_def set_remove_char split: sum.splits)

lemma strip_examples:
  "strip (u ''1 '') = u ''1''" "strip (u ''1'') = u ''1''" "strip (u ''001'') = u ''001''"
  "strip (u ''7'') = u ''7''" "str_int 7 = u ''7''" "str_int 1 = u ''1''"
  by (simp_all add: strip_def u_def is_space_def str_int_def digits.simps)




text \<open>
  C10 (as the code has it). Every string the generator returns has at most 16 characters
  and contains neither \<open>=\<close> nor \<open>-\<close>. The value is the fallback \<open>default_token\<close> exactly when
  encoding the message or the key raises; every other value contains no \<open>_\<close>, and then,
  for a registration id without \<open>_\<close>, splitting \<open>chk_<registration_id>_<token>\<close> on \<open>_\<close>
  gives exactly the three parts \<open>chk\<close>, the registration id and the token.
\<close>

theorem token_shape:
  "length (generate_qr_token key r e v) \<le> 16
   \<and> 61 \<notin> set (generate_qr_token key r e v)
   \<and> 45 \<notin> set (generate_qr_token key r e v)
   \<and> (generate_qr_token key r e v = u ''default_token''
        \<longleftrightarrow> isl (encode (token_data r e v)) \<or> isl (encode key))
   \<and> (generate_qr_token key r e v \<noteq> u ''default_token'' \<longrightarrow>
        95 \<notin> set (generate_qr_token key r e v)
        \<and> (95 \<notin> set rid \<longrightarrow>
             split_char 95 (u ''chk_'' @ rid @ u ''_'' @ generate_qr_token key r e v)
               = [u ''chk'', rid, generate_qr_token key r e v]))"
  using token_length [of key r e v] token_no_eq_dash [of key r e v]
    token_fallback_isl [of key r e v] token_no_underscore [of key r e v]
  by (auto intro: split_chk)

lemma token_data_example:
  "token_data (PInt 1) (PStr (u ''001'')) (PInt 7) = u ''1_001_7''"
  by (simp add: token_data_def strip_examples) (simp add: u_def)

lemma encode_examples:
  "\<not> isl (encode (token_data (PInt 1) (PStr (u ''001'')) (PInt 7)))"
  "\<not> isl (encode default_secret_key)"
  "isl (encode [56448])"
  unfolding token_data_example
  by (simp_all add: u_def encode_cp_def default_secret_key_def)

theorem token_shape_witness:
  "generate_qr_token default_secret_key (PInt 1) (PStr (u ''001'')) (PInt 7) \<noteq> u ''default_token''
   \<and> 95 \<notin> set (u ''1'')
   \<and> split_char 95 (u ''chk_'' @ u ''1'' @ u ''_''
          @ generate_qr_token default_secret_key (PInt 1) (PStr (u ''001'')) (PInt 7))
        = [u ''chk'', u ''1'', generate_qr_token default_secret_key (PInt 1) (PStr (u ''001'')) (PInt 7)]"
proof -
  have a: "95 \<notin> set (u ''1'')" by (simp add: u_def)
  show ?thesis
    using token_shape [of default_secret_key "PInt 1" "PStr (u ''001'')" "PInt 7" "u ''1''"]
      encode_examples(1,2) a
    by blast
qed

text \<open>
  C10 as stated fails on the fallback: with a secret key that cannot be encoded (a lone
  surrogate, as \<open>os.getenv\<close> produces for an undecodable byte) the generator returns
  \<open>default_token\<close>, which contains \<open>_\<close>, and the payload \<open>chk_1_default_token\<close> splits into
  four parts.
\<close>

theorem token_fallback_counterexample:
  "generate_qr_token [56448] (PInt 1) (PStr (u ''001'')) (PInt 7) = u ''default_token''
   \<and> 95 \<in> set (generate_qr_token [56448] (PInt 1) (PStr (u ''001'')) (PInt 7))
   \<and> split_char 95 (u ''chk_'' @ u ''1'' @ u ''_''
          @ generate_qr_token [56448] (PInt 1) (PStr (u ''001'')) (PInt 7))
        = [u ''chk'', u ''1'', u ''default'', u ''token'']"
proof -
  have g: "generate_qr_token [56448] (PInt 1) (PStr (u ''001'')) (PInt 7) = u ''default_token''"
    by (rule token_fallback_isl [THEN iffD2]) (rule disjI2, rule encode_examples(3))
  have d: "u ''chk_'' @ u ''1'' @ u ''_'' @ u ''default_token''
             = u ''chk'' @ 95 # (u ''1'' @ 95 # (u ''default'' @ 95 # u ''token''))"
    by (simp add: u_def)
  have n: "95 \<notin> set (u ''chk'')" "95 \<notin> set (u ''1'')" "95 \<notin> set (u ''default'')"
    "95 \<notin> set (u ''token'')"
    by (simp_all add: u_def)
  have "split_char 95 (u ''chk_'' @ u ''1'' @ u ''_'' @ u ''default_token'')
          = [u ''chk'', u ''1'', u ''default'', u ''token'']"
    unfolding d by (simp only: split_char_append n split_char_no_sep not_False_eq_True)
  then show ?thesis by (simp add: g default_token_chars)
qed

section \<open>Check-in window\<close>

lemma checkin_window_aware:
  "e_start_at ev = Inr (Aware T off) \<Longrightarrow>
   checkin_window ev =
     (let lo = get_default (e_checkin_window_start_minutes ev) (- 60);
          hi = get_default (e_checkin_window_end_minutes ev) 120
      in if - 999999999 \<le> lo div 1440 \<and> lo div 1440 \<le> 999999999
            \<and> - 999999999 \<le> hi div 1440 \<and> hi div 1440 \<le> 999999999
            \<and> in_datetime_range (T + off + minutes lo) \<and> in_datetime_range (T + off + minutes hi)
         then Inr (Aware (T + minutes lo) off, Aware (T + minutes hi) off)
         else Inl OverflowError)"
  by (simp add: checkin_window_def timedelta_minutes_def Let_def)

lemma is_within_aware:
  "e_start_at ev = Inr (Aware T off) \<Longrightarrow>
   is_within_checkin_window now ev \<longleftrightarrow>
     - 999999999 \<le> get_default (e_checkin_window_start_minutes ev) (- 60) div 1440
     \<and> get_default (e_checkin_window_start_minutes ev) (- 60) div 1440 \<le> 999999999
     \<and> - 999999999 \<le> get_default (e_checkin_window_end_minutes ev) 120 div 1440
     \<and> get_default (e_checkin_window_end_minutes ev) 120 div 1440 \<le> 999999999
     \<and> in_datetime_range (T + off + minutes (get_default (e_checkin_window_start_minutes ev) (- 60)))
     \<and> in_datetime_range (T + off + minutes (get_default (e_checkin_window_end_minutes ev) 120))
     \<and> T + minutes (get_default (e_checkin_window_start_minutes ev) (- 60)) \<le> now
     \<and> now \<le> T + minutes (get_default (e_checkin_window_end_minutes ev) 120)"
  by (auto simp: is_within_checkin_window_def checkin_window_aware Let_def)

text \<open>
  C7 (as the code has it). For an event whose start parses to an aware time with instant
  \<open>T\<close>, the window test is true exactly when both offsets are valid \<open>timedelta\<close> values,
  both ends of the window are representable \<open>datetime\<close> values (years 1 to 9999) and
  \<open>now\<close> lies in the closed interval from \<open>T\<close> plus the start offset to \<open>T\<close> plus the end
  offset; the offsets are the stored ones when present and \<open>-60\<close> and \<open>120\<close> minutes
  otherwise. With the default offsets and both ends representable, \<open>T - 61\<close> minutes is
  rejected, \<open>T - 60\<close> and \<open>T + 120\<close> minutes are accepted, \<open>T + 121\<close> minutes is rejected.
  When an end of the window is not representable the test is false for every \<open>now\<close>.
\<close>

theorem checkin_window_closed_interval:
  "e_start_at ev = Inr (Aware T off) \<longrightarrow>
     (is_within_checkin_window now ev \<longleftrightarrow>
        - 999999999 \<le> get_default (e_checkin_window_start_minutes ev) (- 60) div 1440
        \<and> get_default (e_checkin_window_start_minutes ev) (- 60) div 1440 \<le> 999999999
        \<and> - 999999999 \<le> get_default (e_checkin_window_end_minutes ev) 120 div 1440
        \<and> get_default (e_checkin_window_end_minutes ev) 120 div 1440 \<le> 999999999
        \<and> in_datetime_range
             (T + off + minutes (get_default (e_checkin_window_start_minutes ev) (- 60)))
        \<and> in_datetime_range
             (T + off + minutes (get_default (e_checkin_window_end_minutes ev) 120))
        \<and> T + minutes (get_default (e_checkin_window_start_minutes ev) (- 60)) \<le> now
        \<and> now \<le> T + minutes (get_default (e_checkin_window_end_minutes ev) 120))
     \<and> (get_default (e_checkin_window_start_minutes ev) (- 60) = - 60
          \<and> get_default (e_checkin_window_end_minutes ev) 120 = 120
          \<and> in_datetime_range (T + off - minutes 60)
          \<and> in_datetime_range (T + off + minutes 120) \<longrightarrow>
         (is_within_checkin_window now ev \<longleftrightarrow> T - minutes 60 \<le> now \<and> now \<le> T + minutes 120)
         \<and> \<not> is_within_checkin_window (T - minutes 61) ev
         \<and> is_within_checkin_window (T - minutes 60) ev
         \<and> is_within_checkin_window (T + minutes 120) ev
         \<and> \<not> is_within_checkin_window (T + minutes 121) ev)"
proof (intro impI conjI)
  assume s: "e_start_at ev = Inr (Aware T off)"
  show "is_within_checkin_window now ev \<longleftrightarrow>
        - 999999999 \<le> get_default (e_checkin_window_start_minutes ev) (- 60) div 1440
        \<and> get_default (e_checkin_window_start_minutes ev) (- 60) div 1440 \<le> 999999999
        \<and> - 999999999 \<le> get_default (e_checkin_window_end_minutes ev) 120 div 1440
        \<and> get_default (e_checkin_window_end_minutes ev) 120 div 1440 \<le> 999999999
        \<and> in_datetime_range
             (T + off + minutes (get_default (e_checkin_window_start_minutes ev) (- 60)))
        \<and> in_datetime_range
             (T + off + minutes (get_default (e_checkin_window_end_minutes ev) 120))
        \<and> T + minutes (get_default (e_checkin_window_start_minutes ev) (- 60)) \<le> now
        \<and> now \<le> T + minutes (get_default (e_checkin_window_end_minutes ev) 120)"
    by (rule is_within_aware [OF s])
next
  assume s: "e_start_at ev = Inr (Aware T off)"
  assume d: "get_default (e_checkin_window_start_minutes ev) (- 60) = - 60
          \<and> get_default (e_checkin_window_end_minutes ev) 120 = 120
          \<and> in_datetime_range (T + off - minutes 60)
          \<and> in_datetime_range (T + off + minutes 120)"
  have w: "is_within_checkin_window n ev \<longleftrightarrow> T - minutes 60 \<le> n \<and> n \<le> T + minutes 120" for n
    using d by (simp add: is_within_aware [OF s] minutes_def)
  show "is_within_checkin_window now ev \<longleftrightarrow> T - minutes 60 \<le> now \<and> now \<le> T + minutes 120"
    by (rule w)
  show "\<not> is_within_checkin_window (T - minutes 61) ev" by (simp add: w minutes_def)
  show "is_within_checkin_window (T - minutes 60) ev" by (simp add: w minutes_def)
  show "is_within_checkin_window (T + minutes 120) ev" by (simp add: w minutes_def)
  show "\<not> is_within_checkin_window (T + minutes 121) ev" by (simp add: w minutes_def)
qed

lemma event_001_fields:
  "e_start_at (event_001 T) = Inr (Aware T (hours 3))"
  "get_default (e_checkin_window_start_minutes (event_001 T)) (- 60) = - 60"
  "get_default (e_checkin_window_end_minutes (event_001 T)) 120 = 120"
  by (simp_all add: event_001_def get_default_def)

theorem checkin_window_closed_interval_witness:
  "e_start_at (event_001 1000000000) = Inr (Aware 1000000000 (hours 3))
   \<and> get_default (e_checkin_window_start_minutes (event_001 1000000000)) (- 60) = - 60
   \<and> get_default (e_checkin_window_end_minutes (event_001 1000000000)) 120 = 120
   \<and> in_datetime_range (1000000000 + hours 3 - minutes 60)
   \<and> in_datetime_range (1000000000 + hours 3 + minutes 120)
   \<and> \<not> is_within_checkin_window (1000000000 - minutes 61) (event_001 1000000000)
   \<and> is_within_checkin_window (1000000000 - minutes 60) (event_001 1000000000)
   \<and> is_within_checkin_window (1000000000 + minutes 120) (event_001 1000000000)
   \<and> \<not> is_within_checkin_window (1000000000 + minutes 121) (event_001 1000000000)"
proof -
  have r: "in_datetime_range (1000000000 + hours 3 - minutes 60)"
    "in_datetime_range (1000000000 + hours 3 + minutes 120)"
    by (simp_all add: in_datetime_range_def max_datetime_def hours_def minutes_def)
  from checkin_window_closed_interval [of "event_001 1000000000" 1000000000 "hours 3" 0]
    event_001_fields [of 1000000000] r
  show ?thesis by blast
qed

text \<open>
  C7 as stated fails at the end of the \<open>datetime\<close> range: for an event with the default
  offsets that starts one hour before \<open>datetime.max\<close>, the instant of the start lies in
  the interval from \<open>T - 60\<close> to \<open>T + 120\<close> minutes, but the end of the window cannot be computed
  and the test is false.
\<close>

theorem checkin_window_overflow_counterexample:
  "e_start_at (event_001 last_hour) = Inr (Aware last_hour (hours 3))
   \<and> e_checkin_window_start_minutes (event_001 last_hour) = None
   \<and> e_checkin_window_end_minutes (event_001 last_hour) = None
   \<and> last_hour - minutes 60 \<le> last_hour \<and> last_hour \<le> last_hour + minutes 120
   \<and> \<not> is_within_checkin_window last_hour (event_001 last_hour)"
proof -
  have "\<not> in_datetime_range (last_hour + hours 3 + minutes 120)"
    by (simp add: in_datetime_range_def last_hour_def minutes_def)
  then have "\<not> is_within_checkin_window last_hour (event_001 last_hour)"
    by (simp add: is_within_aware [OF event_001_fields(1)] event_001_fields)
  then show ?thesis
    by (simp add: event_001_fields minutes_def) (simp add: event_001_def)
qed

section \<open>Registration identifiers are fresh\<close>

lemma digits_nonempty: "digits n \<noteq> []"
  by (subst digits.simps) simp

lemma digits_chars: "c \<in> set (digits n) \<Longrightarrow> 48 \<le> c \<and> c \<le> 57"
proof (induction n arbitrary: c rule: digits.induct)
  case (1 n)
  show ?case
  proof (cases "n < 10")
    case True
    with "1.prems" show ?thesis by (subst (asm) digits.simps) simp
  next
    case False
    have "n mod 10 < 10" by simp
    with False "1.prems" "1.IH" show ?thesis
      by (subst (asm) digits.simps) (auto simp del: mod_less_divisor)
  qed
qed

lemma digit_val_digit: "48 \<le> c \<Longrightarrow> c \<le> 57 \<Longrightarrow> digit_val c = Some (c - 48)"
  by (simp add: digit_val_def decimal_zeros_def)

lemma parse_digits_append:
  "(\<And>c. c \<in> set xs \<Longrightarrow> 48 \<le> c \<and> c \<le> 57) \<Longrightarrow> d < 10 \<Longrightarrow>
   parse_digits acc (xs @ [48 + d]) = map_option (\<lambda>a. 10 * a + d) (parse_digits acc xs)"
proof (induction xs arbitrary: acc)
  case Nil
  then have "digit_val (48 + d) = Some d" by (simp add: digit_val_digit)
  with Nil show ?case by simp
next
  case (Cons x xs)
  then have x: "48 \<le> x" "x \<le> 57" and xs: "\<And>c. c \<in> set xs \<Longrightarrow> 48 \<le> c \<and> c \<le> 57"
    by auto
  from x have "x \<noteq> 95" by simp
  with x Cons.IH [OF xs Cons.prems(2)] show ?case
    by (simp add: digit_val_digit)
qed

lemma parse_digits_digits: "parse_digits 0 (digits n) = Some n"
proof (induction n rule: digits.induct)
  case (1 n)
  show ?case
  proof (cases "n < 10")
    case True
    then have "digit_val (48 + n) = Some n" by (simp add: digit_val_digit)
    with True show ?thesis by (subst digits.simps) simp
  next
    case False
    have "parse_digits 0 (digits (n div 10) @ [48 + n mod 10]) = Some (10 * (n div 10) + n mod 10)"
      using "1.IH" [OF False] by (subst parse_digits_append) (auto dest: digits_chars)
    with False show ?thesis by (subst digits.simps) simp
  qed
qed

lemma parse_nat_digits: "parse_nat (digits n) = Some n"
proof -
  obtain c cs where s: "digits n = c # cs"
    using digits_nonempty [of n] by (cases "digits n") auto
  then have c: "48 \<le> c" "c \<le> 57" using digits_chars [of c n] by auto
  then have "parse_digits 0 (c # cs) = parse_digits (c - 48) cs"
    by (simp add: digit_val_digit)
  with parse_digits_digits [of n] s c show ?thesis
    by (simp add: parse_nat_def digit_val_digit)
qed

lemma int_strip_digits: "int_strip (digits n) = digits n"
proof -
  have ns: "\<not> int_space c" if "c \<in> set (digits n)" for c
    using digits_chars [OF that] by (simp add: int_space_def is_space_def)
  obtain c cs where s: "digits n = c # cs"
    using digits_nonempty [of n] by (cases "digits n") auto
  have 1: "dropWhile int_space (digits n) = digits n"
    using ns s by simp
  have "rev (digits n) \<noteq> []" using digits_nonempty by simp
  then obtain d ds where r: "rev (digits n) = d # ds" by (cases "rev (digits n)") auto
  then have "d \<in> set (digits n)" by (metis list.set_intros(1) set_rev)
  then have "dropWhile int_space (rev (digits n)) = rev (digits n)"
    using ns r by simp
  with 1 show ?thesis by (simp add: int_strip_def)
qed

lemma int_of_str_str_int: "0 \<le> i \<Longrightarrow> int_of_str (str_int i) = Some i"
proof -
  assume i: "0 \<le> i"
  obtain c cs where s: "digits (nat i) = c # cs"
    using digits_nonempty [of "nat i"] by (cases "digits (nat i)") auto
  then have "48 \<le> c" using digits_chars [of c "nat i"] by auto
  then have c: "c \<noteq> 45" "c \<noteq> 43" by simp_all
  have st: "int_strip (c # cs) = c # cs" using int_strip_digits [of "nat i"] s by simp
  have pn: "parse_nat (c # cs) = Some (nat i)" using parse_nat_digits [of "nat i"] s by simp
  from i have "str_int i = c # cs" by (simp add: str_int_def s)
  with c st pn i show ?thesis
    by (simp add: int_of_str_def)
qed

lemma max_id_bounds:
  "m \<le> foldl (\<lambda>max_id reg_id. case int_of_str reg_id of None \<Rightarrow> max_id | Some i \<Rightarrow> max max_id i)
          m ks"
  "k \<in> set ks \<Longrightarrow> int_of_str k = Some i \<Longrightarrow>
   i \<le> foldl (\<lambda>max_id reg_id. case int_of_str reg_id of None \<Rightarrow> max_id | Some i \<Rightarrow> max max_id i)
          m ks"
proof (induction ks arbitrary: m)
  case Nil
  { case 1 show ?case by simp }
  { case 2 then show ?case by simp }
next
  case (Cons a ks)
  { case 1
    show ?case using Cons.IH(1) [of "case int_of_str a of None \<Rightarrow> m | Some i \<Rightarrow> max m i"]
      by (auto split: option.splits) }
  { case 2
    show ?case
    proof (cases "k = a")
      case True
      with 2 Cons.IH(1) [of "max m i"] show ?thesis by simp
    next
      case False
      with 2 have "k \<in> set ks" by simp
      from Cons.IH(2) [OF this 2(2)] show ?thesis by simp
    qed }
qed

lemma next_registration_id_positive: "1 \<le> get_next_registration_id st"
  using max_id_bounds(1) [of 0 "map fst (registrations (data st))"]
  by (simp add: get_next_registration_id_def)

lemma next_registration_id_fresh:
  "\<not> has_key (registrations (data st)) (str_int (get_next_registration_id st))"
proof
  let ?n = "get_next_registration_id st"
  assume "has_key (registrations (data st)) (str_int ?n)"
  then have k: "str_int ?n \<in> set (map fst (registrations (data st)))"
    by (simp add: has_key_def)
  then have ne: "registrations (data st) \<noteq> []" by auto
  have "int_of_str (str_int ?n) = Some ?n"
    using next_registration_id_positive [of st] by (intro int_of_str_str_int) simp
  from max_id_bounds(2) [OF k this, of 0] ne show False
    by (simp add: get_next_registration_id_def)
qed

section \<open>Capacity and waitlist arithmetic\<close>

lemma dict_set_fresh: "\<not> has_key d k \<Longrightarrow> dict_set k v d = d @ [(k, v)]"
  by (induction d) (auto simp: has_key_def)

lemma dict_get_append_fresh: "\<not> has_key d k \<Longrightarrow> dict_get (d @ [(k, v)]) k = Some v"
  by (induction d) (auto simp: has_key_def dict_get_def)

lemma data_save_locally: "data (save_locally dt st) = data st"
  by (simp add: save_locally_def split: option.splits write_fault.splits)

lemma registered_ne_waitlist: "u ''registered'' \<noteq> u ''waitlist''"
  by (simp add: u_eq_iff)

lemma create_registration_outcome:
  "get_event st event_id = Some ev \<Longrightarrow>
   fst (sm_create_registration st user_id event_id full_name qr_token now) =
     Some (get_next_registration_id st,
           if get_registrations_count st event_id (u ''registered'') < e_capacity ev
           then (u ''registered'', None)
           else (u ''waitlist'', Some (get_waitlist_count st event_id + 1)))"
  by (simp add: sm_create_registration_def Let_def not_le [symmetric])

lemma create_registration_missing:
  "get_event st event_id = None \<Longrightarrow>
   sm_create_registration st user_id event_id full_name qr_token now = (None, st)"
  by (simp add: sm_create_registration_def)

lemma create_registration_data:
  assumes "get_event st event_id = Some ev"
  shows "data (snd (sm_create_registration st user_id event_id full_name qr_token now)) =
     (data st)\<lparr>registrations := registrations (data st) @
        [(str_int (get_next_registration_id st),
          \<lparr> r_registration_id = PInt (get_next_registration_id st), r_event_id = event_id,
            r_user_id = user_id, r_full_name = full_name,
            r_status = new_status st event_id ev,
            r_waitlist_position =
              (if new_status st event_id ev = u ''waitlist''
               then Some (get_waitlist_count st event_id + 1) else None),
            r_qr_token = Some qr_token, r_checkin_at = None,
            r_created_at = now, r_updated_at = now \<rparr>)]\<rparr>"
  using assms next_registration_id_fresh [of st]
  by (simp add: sm_create_registration_def Let_def ls_create_registration_def data_save_locally
      dict_set_fresh new_status_def registered_ne_waitlist not_le [symmetric])

lemma create_registration_event:
  assumes "get_event st event_id = Some ev"
  shows "get_event (snd (sm_create_registration st user_id event_id full_name qr_token now)) eid
           = get_event st eid"
  by (simp add: get_event_def create_registration_data [OF assms])

lemma create_registration_count:
  assumes "get_event st event_id = Some ev"
  shows "get_registrations_count
           (snd (sm_create_registration st user_id event_id full_name qr_token now)) event_id s
         = get_registrations_count st event_id s
             + (if s = new_status st event_id ev then 1 else 0)"
  by (auto simp: get_registrations_count_def create_registration_data [OF assms])

lemma new_status_cases:
  "get_registrations_count st event_id (u ''registered'') < e_capacity ev
     \<Longrightarrow> new_status st event_id ev = u ''registered''"
  "\<not> get_registrations_count st event_id (u ''registered'') < e_capacity ev
     \<Longrightarrow> new_status st event_id ev = u ''waitlist''"
  by (simp_all add: new_status_def)

text \<open>
  C1 (as the code has it). For an existing event, \<open>create_registration\<close> returns status
  \<open>registered\<close> exactly when the number of stored registrations of the event with status
  \<open>registered\<close> is below the capacity, and otherwise \<open>waitlist\<close> with position one more
  than the number of its \<open>waitlist\<close> registrations. For an event of capacity 2 with no
  \<open>registered\<close> and no \<open>waitlist\<close> registration, four successive calls give \<open>registered\<close>,
  \<open>registered\<close>, \<open>waitlist\<close> at position 1 and \<open>waitlist\<close> at position 2.
\<close>

theorem capacity_waitlist:
  assumes ev: "get_event st event_id = Some ev"
  shows "fst (sm_create_registration st user_id event_id full_name qr_token now) =
           Some (get_next_registration_id st,
                 if get_registrations_count st event_id (u ''registered'') < e_capacity ev
                 then (u ''registered'', None)
                 else (u ''waitlist'', Some (get_waitlist_count st event_id + 1)))
         \<and> (e_capacity ev = 2
              \<and> get_registrations_count st event_id (u ''registered'') = 0
              \<and> get_waitlist_count st event_id = 0 \<longrightarrow>
            map (map_option snd) (register_all st event_id [a1, a2, a3, a4] now) =
              [Some (u ''registered'', None), Some (u ''registered'', None),
               Some (u ''waitlist'', Some 1), Some (u ''waitlist'', Some 2)])"
proof (intro conjI impI)
  show "fst (sm_create_registration st user_id event_id full_name qr_token now) =
           Some (get_next_registration_id st,
                 if get_registrations_count st event_id (u ''registered'') < e_capacity ev
                 then (u ''registered'', None)
                 else (u ''waitlist'', Some (get_waitlist_count st event_id + 1)))"
    using ev by (rule create_registration_outcome)
next
  assume h: "e_capacity ev = 2
              \<and> get_registrations_count st event_id (u ''registered'') = 0
              \<and> get_waitlist_count st event_id = 0"
  obtain u1 n1 t1 where a1: "a1 = (u1, n1, t1)" by (cases a1)
  obtain u2 n2 t2 where a2: "a2 = (u2, n2, t2)" by (cases a2)
  obtain u3 n3 t3 where a3: "a3 = (u3, n3, t3)" by (cases a3)
  obtain u4 n4 t4 where a4: "a4 = (u4, n4, t4)" by (cases a4)
  let ?R = "\<lambda>s. get_registrations_count s event_id (u ''registered'')"
  let ?W = "\<lambda>s. get_registrations_count s event_id (u ''waitlist'')"
  define s1 where "s1 = snd (sm_create_registration st u1 event_id n1 t1 now)"
  define s2 where "s2 = snd (sm_create_registration s1 u2 event_id n2 t2 now)"
  define s3 where "s3 = snd (sm_create_registration s2 u3 event_id n3 t3 now)"
  have c0: "?R st = 0" "?W st = 0" and cap: "e_capacity ev = 2"
    using h by (simp_all add: get_waitlist_count_def)
  have n0: "new_status st event_id ev = u ''registered''"
    using c0 cap by (simp add: new_status_def)
  have o1: "fst (sm_create_registration st u1 event_id n1 t1 now)
              = Some (get_next_registration_id st, u ''registered'', None)"
    using create_registration_outcome [OF ev] c0 cap by simp
  have e1: "get_event s1 event_id = Some ev"
    unfolding s1_def using ev by (simp add: create_registration_event [OF ev])
  have c1: "?R s1 = 1" "?W s1 = 0"
    unfolding s1_def using c0 n0
    by (simp_all add: create_registration_count [OF ev] registered_ne_waitlist [symmetric])
  have n1: "new_status s1 event_id ev = u ''registered''"
    using c1 cap by (simp add: new_status_def)
  have o2: "fst (sm_create_registration s1 u2 event_id n2 t2 now)
              = Some (get_next_registration_id s1, u ''registered'', None)"
    using create_registration_outcome [OF e1] c1 cap by simp
  have e2: "get_event s2 event_id = Some ev"
    unfolding s2_def using e1 by (simp add: create_registration_event [OF e1])
  have c2: "?R s2 = 2" "?W s2 = 0"
    unfolding s2_def using c1 n1
    by (simp_all add: create_registration_count [OF e1] registered_ne_waitlist [symmetric])
  have n2: "new_status s2 event_id ev = u ''waitlist''"
    using c2 cap by (simp add: new_status_def)
  have o3: "fst (sm_create_registration s2 u3 event_id n3 t3 now)
              = Some (get_next_registration_id s2, u ''waitlist'', Some 1)"
    using create_registration_outcome [OF e2] c2 cap by (simp add: get_waitlist_count_def)
  have e3: "get_event s3 event_id = Some ev"
    unfolding s3_def using e2 by (simp add: create_registration_event [OF e2])
  have c3: "?R s3 = 2" "?W s3 = 1"
    unfolding s3_def using c2 n2
    by (simp_all add: create_registration_count [OF e2] registered_ne_waitlist)
  have o4: "fst (sm_create_registration s3 u4 event_id n4 t4 now)
              = Some (get_next_registration_id s3, u ''waitlist'', Some 2)"
    using create_registration_outcome [OF e3] c3 cap by (simp add: get_waitlist_count_def)
  show "map (map_option snd) (register_all st event_id [a1, a2, a3, a4] now) =
              [Some (u ''registered'', None), Some (u ''registered'', None),
               Some (u ''waitlist'', Some 1), Some (u ''waitlist'', Some 2)]"
    using o1 o2 o3 o4
    by (simp add: a1 a2 a3 a4 case_prod_beta s1_def [symmetric] s2_def [symmetric]
        s3_def [symmetric])
qed

lemma data_store_001:
  "data (store_001 regs) =
     \<lparr> events = [(u ''001'', event_001 1000000000)], users = [],
       registrations = regs, blacklist = [], reminders = [] \<rparr>"
  by (simp add: store_001_def Let_def)

lemma store_001_event:
  "get_event (store_001 regs) (PStr (u ''001'')) = Some (event_001 1000000000)"
  by (simp add: get_event_def data_store_001 dict_get_def)

lemma store_001_count:
  "get_registrations_count (store_001 regs) (PStr (u ''001'')) s =
     int (length (filter (\<lambda>reg. py_str (r_event_id reg) = u ''001'' \<and> r_status reg = s)
                    (map snd regs)))"
  by (simp add: get_registrations_count_def data_store_001)

theorem capacity_waitlist_witness:
  "get_event (store_001 []) (PStr (u ''001'')) = Some (event_001 1000000000)
   \<and> e_capacity (event_001 1000000000) = 2
   \<and> get_registrations_count (store_001 []) (PStr (u ''001'')) (u ''registered'') = 0
   \<and> get_waitlist_count (store_001 []) (PStr (u ''001'')) = 0
   \<and> map (map_option snd)
        (register_all (store_001 []) (PStr (u ''001''))
           [(PInt 11, u ''Ivan Petrov'', u ''t1''), (PInt 12, u ''Anna Lee'', u ''t2''),
            (PInt 13, u ''Oleg Kim'', u ''t3''), (PInt 14, u ''Vera Sun'', u ''t4'')] 0) =
        [Some (u ''registered'', None), Some (u ''registered'', None),
         Some (u ''waitlist'', Some 1), Some (u ''waitlist'', Some 2)]"
proof -
  have e: "get_event (store_001 []) (PStr (u ''001'')) = Some (event_001 1000000000)"
    by (rule store_001_event)
  have c: "e_capacity (event_001 1000000000) = 2
     \<and> get_registrations_count (store_001 []) (PStr (u ''001'')) (u ''registered'') = 0
     \<and> get_waitlist_count (store_001 []) (PStr (u ''001'')) = 0"
    by (simp add: event_001_def store_001_count get_waitlist_count_def)
  note r = capacity_waitlist [OF e, THEN conjunct2, THEN mp, OF c]
  show ?thesis
    by (intro conjI) (rule e, simp_all only: c r)
qed

text \<open>
  C1 as stated fails: with capacity 2 and two \<open>attended\<close> registrations, the count of
  \<open>registered\<close>-or-\<open>attended\<close> registrations is not below the capacity, yet the new
  registration is \<open>registered\<close>.
\<close>

theorem attended_not_counted_counterexample:
  "\<not> get_registrations_count
        (store_001 [reg_001 1 5 (u ''attended'') None (u ''t1''),
                    reg_001 2 6 (u ''attended'') None (u ''t2'')])
        (PStr (u ''001'')) (u ''registered'')
      + get_registrations_count
        (store_001 [reg_001 1 5 (u ''attended'') None (u ''t1''),
                    reg_001 2 6 (u ''attended'') None (u ''t2'')])
        (PStr (u ''001'')) (u ''attended'')
      < e_capacity (event_001 1000000000)
   \<and> fst (sm_create_registration
        (store_001 [reg_001 1 5 (u ''attended'') None (u ''t1''),
                    reg_001 2 6 (u ''attended'') None (u ''t2'')])
        (PInt 11) (PStr (u ''001'')) (u ''Ivan Petrov'') (u ''t3'') 0)
       = Some (3, u ''registered'', None)"
proof -
  let ?st = "store_001 [reg_001 1 5 (u ''attended'') None (u ''t1''),
                        reg_001 2 6 (u ''attended'') None (u ''t2'')]"
  have r: "get_registrations_count ?st (PStr (u ''001'')) (u ''registered'') = 0"
    by (simp add: store_001_count reg_001_def u_eq_iff)
  have a: "get_registrations_count ?st (PStr (u ''001'')) (u ''attended'') = 2"
    by (simp add: store_001_count reg_001_def)
  have cap: "e_capacity (event_001 1000000000) = 2"
    by (simp add: event_001_def)
  have n: "get_next_registration_id ?st = 3"
    by (simp add: get_next_registration_id_def data_store_001 reg_001_def int_of_str_str_int)
  show ?thesis
    using create_registration_outcome [OF store_001_event,
        of "[reg_001 1 5 (u ''attended'') None (u ''t1''), reg_001 2 6 (u ''attended'') None (u ''t2'')]"
           "PInt 11" "u ''Ivan Petrov''" "u ''t3''" 0]
    by (simp add: r a cap n)
qed

section \<open>Persistence failures\<close>

lemma save_locally_open_fails:
  "map_of (faults st) dt = Some OpenFails \<Longrightarrow>
   save_locally dt st = st\<lparr>logged := logged st @ [SaveError dt]\<rparr>"
  by (simp add: save_locally_def)

lemma save_locally_dump_fails:
  "map_of (faults st) dt = Some DumpFails \<Longrightarrow>
   save_locally dt st = st\<lparr>files := truncate_file dt (files st), logged := logged st @ [SaveError dt]\<rparr>"
  by (simp add: save_locally_def)

lemma add_to_blacklist_returns:
  "add_to_blacklist st user_id reason added_by now =
     Inr (True, save_locally Blacklist
        (st\<lparr>data := (data st)\<lparr>blacklist := dict_set (py_str user_id)
               \<lparr> b_user_id = py_str user_id, b_reason = reason, b_added_by = added_by,
                 b_added_at = now \<rparr> (blacklist (data st))\<rparr>\<rparr>))"
  by (simp add: add_to_blacklist_def add_to_blacklist_body_def Let_def)

lemma sm_add_to_blacklist_returns:
  "fst (sm_add_to_blacklist st user_id reason added_by now)
   \<and> snd (sm_add_to_blacklist st user_id reason added_by now)
       = snd (projr (add_to_blacklist st user_id reason added_by now))"
  by (simp add: sm_add_to_blacklist_def add_to_blacklist_returns)

lemma has_key_dict_set: "has_key (dict_set k v d) k"
  by (induction d) (auto simp: has_key_def)

lemma add_to_blacklist_in_memory:
  "is_blacklisted (snd (projr (add_to_blacklist st user_id reason added_by now))) user_id"
  by (simp add: add_to_blacklist_returns is_blacklisted_def data_save_locally has_key_dict_set)

lemma files_store_001: "files (store_001 regs) = disk_of (data (store_001 regs))"
  by (simp add: store_001_def Let_def)

text \<open>
  C3 at the failing input. With \<open>blacklist.json\<close> impossible to open for writing, and also
  with a dump into it that fails half-way, the insertion of user 7 raises nothing: it
  returns \<open>True\<close>, the wrapper of \<open>SheetsManager\<close> returns \<open>True\<close>, and the user is on the
  block-list in memory only; the file keeps its old content in the first case and is
  left truncated in the second, and the failure is only logged.
\<close>

theorem blacklist_save_failure_not_reported:
  "\<not> isl (add_to_blacklist store_readonly_blacklist (PInt 7) (u ''spam'') (u ''1458704301'') 5)
   \<and> fst (projr (add_to_blacklist store_readonly_blacklist (PInt 7) (u ''spam'')
                   (u ''1458704301'') 5))
   \<and> fst (sm_add_to_blacklist store_readonly_blacklist (PInt 7) (u ''spam'') (u ''1458704301'') 5)
   \<and> is_blacklisted
        (snd (sm_add_to_blacklist store_readonly_blacklist (PInt 7) (u ''spam'')
                (u ''1458704301'') 5)) (PInt 7)
   \<and> blacklist_json (files (snd (sm_add_to_blacklist store_readonly_blacklist (PInt 7)
                                    (u ''spam'') (u ''1458704301'') 5))) = Document []
   \<and> logged (snd (sm_add_to_blacklist store_readonly_blacklist (PInt 7) (u ''spam'')
                     (u ''1458704301'') 5)) = [SaveError Blacklist]
   \<and> \<not> isl (add_to_blacklist store_failing_dump (PInt 7) (u ''spam'') (u ''1458704301'') 5)
   \<and> fst (sm_add_to_blacklist store_failing_dump (PInt 7) (u ''spam'') (u ''1458704301'') 5)
   \<and> is_blacklisted
        (snd (sm_add_to_blacklist store_failing_dump (PInt 7) (u ''spam'') (u ''1458704301'') 5))
        (PInt 7)
   \<and> blacklist_json (files (snd (sm_add_to_blacklist store_failing_dump (PInt 7) (u ''spam'')
                                    (u ''1458704301'') 5))) = Truncated
   \<and> logged (snd (sm_add_to_blacklist store_failing_dump (PInt 7) (u ''spam'')
                     (u ''1458704301'') 5)) = [SaveError Blacklist]"
proof -
  have f1: "files (snd (projr (add_to_blacklist store_readonly_blacklist (PInt 7) (u ''spam'')
                                 (u ''1458704301'') 5))) = disk_of (data (store_001 []))"
    "logged (snd (projr (add_to_blacklist store_readonly_blacklist (PInt 7) (u ''spam'')
                                 (u ''1458704301'') 5))) = [SaveError Blacklist]"
    by (simp_all add: add_to_blacklist_returns save_locally_def store_readonly_blacklist_def
        files_store_001) (simp add: store_001_def Let_def)
  have f2: "files (snd (projr (add_to_blacklist store_failing_dump (PInt 7) (u ''spam'')
                                 (u ''1458704301'') 5)))
              = (disk_of (data (store_001 [])))\<lparr>blacklist_json := Truncated\<rparr>"
    "logged (snd (projr (add_to_blacklist store_failing_dump (PInt 7) (u ''spam'')
                                 (u ''1458704301'') 5))) = [SaveError Blacklist]"
    by (simp_all add: add_to_blacklist_returns save_locally_def store_failing_dump_def
        files_store_001) (simp add: store_001_def Let_def)
  have b: "blacklist_json (disk_of (data (store_001 []))) = Document []"
    by (simp add: disk_of_def data_store_001)
  show ?thesis
    using sm_add_to_blacklist_returns [of store_readonly_blacklist "PInt 7" "u ''spam''"
        "u ''1458704301''" 5]
      sm_add_to_blacklist_returns [of store_failing_dump "PInt 7" "u ''spam''"
        "u ''1458704301''" 5]
      add_to_blacklist_in_memory [of store_readonly_blacklist "PInt 7" "u ''spam''"
        "u ''1458704301''" 5]
      add_to_blacklist_in_memory [of store_failing_dump "PInt 7" "u ''spam''"
        "u ''1458704301''" 5]
    by (simp add: f1 f2 b) (simp add: add_to_blacklist_returns)
qed

section \<open>Upcoming and past events\<close>

lemma upcoming_step:
  "upcoming_loop now ((k, ev) # rest) =
     (if e_status ev = u ''active'' then
        (case e_start_at ev of
           Inl e \<Rightarrow> (if e = ValueError \<or> e = KeyError then upcoming_loop now rest else Inl e)
         | Inr (Naive t) \<Rightarrow> Inl TypeError
         | Inr (Aware t off) \<Rightarrow>
             (case upcoming_loop now rest of
                Inl e \<Rightarrow> Inl e
              | Inr found \<Rightarrow> Inr (if now < t then (k, ev) # found else found)))
      else upcoming_loop now rest)"
  by (simp split: sum.splits datetime.splits)

lemma upcoming_loop_filter:
  "upcoming_loop now evs = Inr up \<Longrightarrow>
   up = filter (\<lambda>(k, ev). e_status ev = u ''active'' \<and>
                  (case e_start_at ev of Inr (Aware t off) \<Rightarrow> now < t | _ \<Rightarrow> False)) evs"
proof (induction evs arbitrary: up)
  case Nil
  then show ?case by simp
next
  case (Cons p evs)
  obtain k ev where p: "p = (k, ev)" by (cases p)
  show ?case
  proof (cases "e_status ev = u ''active''")
    case False
    with Cons show ?thesis unfolding p by (simp only: upcoming_step) simp
  next
    case True
    show ?thesis
    proof (cases "e_start_at ev")
      case (Inl e)
      with True Cons show ?thesis unfolding p
        by (simp only: upcoming_step) (simp split: if_splits)
    next
      case (Inr d)
      show ?thesis
      proof (cases d)
        case (Naive t)
        with Inr True Cons.prems show ?thesis unfolding p by (simp only: upcoming_step) simp
      next
        case (Aware t off)
        with Inr True Cons.prems obtain found where
          f: "upcoming_loop now evs = Inr found"
          and u: "up = (if now < t then (k, ev) # found else found)"
          unfolding p by (simp only: upcoming_step) (simp split: sum.splits)
        from Cons.IH [OF f] u Inr Aware True show ?thesis unfolding p by simp
      qed
    qed
  qed
qed

lemma upcoming_loop_returns:
  "\<forall>(k, ev) \<in> set evs. e_status ev = u ''active'' \<longrightarrow>
      (case e_start_at ev of Inl e \<Rightarrow> e = ValueError \<or> e = KeyError
                           | Inr (Naive t) \<Rightarrow> False | Inr (Aware t off) \<Rightarrow> True)
   \<Longrightarrow> \<exists>up. upcoming_loop now evs = Inr up"
proof (induction evs)
  case Nil
  then show ?case by simp
next
  case (Cons p evs)
  obtain k ev where p: "p = (k, ev)" by (cases p)
  from Cons.prems have "\<exists>up. upcoming_loop now evs = Inr up"
    by (intro Cons.IH) simp
  then obtain found where f: "upcoming_loop now evs = Inr found" ..
  show ?case
  proof (cases "e_status ev = u ''active''")
    case False
    with f show ?thesis unfolding p by (simp only: upcoming_step) simp
  next
    case True
    with Cons.prems have c: "case e_start_at ev of Inl e \<Rightarrow> e = ValueError \<or> e = KeyError
                           | Inr (Naive t) \<Rightarrow> False | Inr (Aware t off) \<Rightarrow> True"
      unfolding p by simp
    show ?thesis
    proof (cases "e_start_at ev")
      case (Inl e)
      with c True f show ?thesis unfolding p by (simp only: upcoming_step) auto
    next
      case (Inr d)
      with c obtain t off where "d = Aware t off" by (cases d) auto
      with Inr True f show ?thesis unfolding p by (simp only: upcoming_step) simp
    qed
  qed
qed

lemma past_step:
  "past_loop now ((k, ev) # rest) =
     (if e_status ev = u ''active'' then
        (case e_start_at ev of
           Inl e \<Rightarrow> (if e = ValueError \<or> e = KeyError then past_loop now rest else Inl e)
         | Inr (Naive t) \<Rightarrow> Inl TypeError
         | Inr (Aware t off) \<Rightarrow>
             (case past_loop now rest of
                Inl e \<Rightarrow> Inl e
              | Inr found \<Rightarrow> Inr (if t \<le> now - hours 2 then (k, ev) # found else found)))
      else past_loop now rest)"
  by (simp split: sum.splits datetime.splits)

lemma past_loop_filter:
  "past_loop now evs = Inr past \<Longrightarrow>
   past = filter (\<lambda>(k, ev). e_status ev = u ''active'' \<and>
                  (case e_start_at ev of Inr (Aware t off) \<Rightarrow> t \<le> now - hours 2 | _ \<Rightarrow> False)) evs"
proof (induction evs arbitrary: past)
  case Nil
  then show ?case by simp
next
  case (Cons p evs)
  obtain k ev where p: "p = (k, ev)" by (cases p)
  show ?case
  proof (cases "e_status ev = u ''active''")
    case False
    with Cons show ?thesis unfolding p by (simp only: past_step) simp
  next
    case True
    show ?thesis
    proof (cases "e_start_at ev")
      case (Inl e)
      with True Cons show ?thesis unfolding p
        by (simp only: past_step) (simp split: if_splits)
    next
      case (Inr d)
      show ?thesis
      proof (cases d)
        case (Naive t)
        with Inr True Cons.prems show ?thesis unfolding p by (simp only: past_step) simp
      next
        case (Aware t off)
        with Inr True Cons.prems obtain found where
          f: "past_loop now evs = Inr found"
          and u: "past = (if t \<le> now - hours 2 then (k, ev) # found else found)"
          unfolding p by (simp only: past_step) (simp split: sum.splits)
        from Cons.IH [OF f] u Inr Aware True show ?thesis unfolding p by simp
      qed
    qed
  qed
qed

lemma past_loop_returns:
  "\<forall>(k, ev) \<in> set evs. e_status ev = u ''active'' \<longrightarrow>
      (case e_start_at ev of Inl e \<Rightarrow> e = ValueError \<or> e = KeyError
                           | Inr (Naive t) \<Rightarrow> False | Inr (Aware t off) \<Rightarrow> True)
   \<Longrightarrow> \<exists>past. past_loop now evs = Inr past"
proof (induction evs)
  case Nil
  then show ?case by simp
next
  case (Cons p evs)
  obtain k ev where p: "p = (k, ev)" by (cases p)
  from Cons.prems have "\<exists>past. past_loop now evs = Inr past"
    by (intro Cons.IH) simp
  then obtain found where f: "past_loop now evs = Inr found" ..
  show ?case
  proof (cases "e_status ev = u ''active''")
    case False
    with f show ?thesis unfolding p by (simp only: past_step) simp
  next
    case True
    with Cons.prems have c: "case e_start_at ev of Inl e \<Rightarrow> e = ValueError \<or> e = KeyError
                           | Inr (Naive t) \<Rightarrow> False | Inr (Aware t off) \<Rightarrow> True"
      unfolding p by simp
    show ?thesis
    proof (cases "e_start_at ev")
      case (Inl e)
      with c True f show ?thesis unfolding p by (simp only: past_step) auto
    next
      case (Inr d)
      with c obtain t off where "d = Aware t off" by (cases d) auto
      with Inr True f show ?thesis unfolding p by (simp only: past_step) simp
    qed
  qed
qed

lemma dict_get_filter:
  assumes "distinct (map fst d)"
  shows "dict_get (filter P d) k =
           (case dict_get d k of None \<Rightarrow> None | Some v \<Rightarrow> if P (k, v) then Some v else None)"
proof (cases "dict_get d k")
  case None
  then have a: "map_of d k = None" by (simp add: dict_get_def)
  then have "k \<notin> fst ` set d" by (simp add: map_of_eq_None_iff)
  then have "k \<notin> fst ` set (filter P d)" by auto
  then have b: "map_of (filter P d) k = None" by (simp add: map_of_eq_None_iff)
  show ?thesis by (simp only: dict_get_def a b option.case)
next
  case (Some v)
  show ?thesis
  proof (cases "P (k, v)")
    case True
    from Some have "(k, v) \<in> set d" by (simp add: dict_get_def map_of_SomeD)
    with True have "(k, v) \<in> set (filter P d)" by simp
    moreover from assms have "distinct (map fst (filter P d))" by (rule distinct_map_filter)
    ultimately have "map_of (filter P d) k = Some v" by (rule map_of_is_SomeI [rotated])
    moreover from Some have "map_of d k = Some v" by (simp add: dict_get_def)
    ultimately show ?thesis using True by (simp only: dict_get_def option.case if_True)
  next
    case False
    have "k \<notin> fst ` set (filter P d)"
    proof
      assume "k \<in> fst ` set (filter P d)"
      then obtain v' where v': "(k, v') \<in> set d" "P (k, v')" by auto
      from assms v'(1) have "map_of d k = Some v'" by (rule map_of_is_SomeI)
      with Some have "v' = v" by (simp add: dict_get_def)
      with v' False show False by simp
    qed
    then have "map_of (filter P d) k = None" by (simp add: map_of_eq_None_iff)
    moreover from Some have "map_of d k = Some v" by (simp add: dict_get_def)
    ultimately show ?thesis using False by (simp only: dict_get_def option.case if_False)
  qed
qed

text \<open>
  C9. In a store whose active events have an aware (or unreadable, hence skipped) start
  time, both queries return, and for every active event: a start one hour after \<open>now\<close>
  puts it in the upcoming set and not in the past set; a start three hours before \<open>now\<close>
  puts it in the past set and not in the upcoming set; a start one hour before \<open>now\<close>
  puts it in neither.
\<close>

theorem event_classification:
  assumes keys: "distinct (map fst (events (data st)))"
    and ok: "\<forall>(k, ev) \<in> set (events (data st)). e_status ev = u ''active'' \<longrightarrow>
      (case e_start_at ev of Inl e \<Rightarrow> e = ValueError \<or> e = KeyError
                           | Inr (Naive t) \<Rightarrow> False | Inr (Aware t off) \<Rightarrow> True)"
  shows "\<exists>up past. get_upcoming_events now st = Inr up \<and> get_past_events now st = Inr past
     \<and> (\<forall>k ev. dict_get (events (data st)) k = Some ev \<and> e_status ev = u ''active'' \<longrightarrow>
          ((\<exists>off. e_start_at ev = Inr (Aware (now + hours 1) off)) \<longrightarrow>
             dict_get up k = Some ev \<and> dict_get past k = None)
        \<and> ((\<exists>off. e_start_at ev = Inr (Aware (now - hours 3) off)) \<longrightarrow>
             dict_get past k = Some ev \<and> dict_get up k = None)
        \<and> ((\<exists>off. e_start_at ev = Inr (Aware (now - hours 1) off)) \<longrightarrow>
             dict_get up k = None \<and> dict_get past k = None))"
proof -
  from upcoming_loop_returns [OF ok] obtain up where
    up: "get_upcoming_events now st = Inr up"
    by (auto simp: get_upcoming_events_def)
  from past_loop_returns [OF ok] obtain past where
    past: "get_past_events now st = Inr past"
    by (auto simp: get_past_events_def)
  note upf = upcoming_loop_filter [OF up [unfolded get_upcoming_events_def]]
  note pastf = past_loop_filter [OF past [unfolded get_past_events_def]]
  have "dict_get up k = Some ev \<and> dict_get past k = None"
    if "dict_get (events (data st)) k = Some ev" "e_status ev = u ''active''"
      "\<exists>off. e_start_at ev = Inr (Aware (now + hours 1) off)" for k ev
    using that unfolding upf pastf dict_get_filter [OF keys] by (auto simp: hours_def)
  moreover have "dict_get past k = Some ev \<and> dict_get up k = None"
    if "dict_get (events (data st)) k = Some ev" "e_status ev = u ''active''"
      "\<exists>off. e_start_at ev = Inr (Aware (now - hours 3) off)" for k ev
    using that unfolding upf pastf dict_get_filter [OF keys] by (auto simp: hours_def)
  moreover have "dict_get up k = None \<and> dict_get past k = None"
    if "dict_get (events (data st)) k = Some ev" "e_status ev = u ''active''"
      "\<exists>off. e_start_at ev = Inr (Aware (now - hours 1) off)" for k ev
    using that unfolding upf pastf dict_get_filter [OF keys] by (auto simp: hours_def)
  ultimately show ?thesis using up past by blast
qed

lemma data_store_three_events:
  "events (data (store_three_events now)) =
     [(u ''001'', event_001 (now + hours 1)),
      (u ''002'', (event_001 (now - hours 3))\<lparr>e_event_id := u ''002''\<rparr>),
      (u ''003'', (event_001 (now - hours 1))\<lparr>e_event_id := u ''003''\<rparr>)]"
  by (simp add: store_three_events_def Let_def)

theorem event_classification_witness:
  "distinct (map fst (events (data (store_three_events 1000000000))))
   \<and> (\<exists>up past.
        get_upcoming_events 1000000000 (store_three_events 1000000000) = Inr up
      \<and> get_past_events 1000000000 (store_three_events 1000000000) = Inr past
      \<and> dict_get up (u ''001'') = Some (event_001 (1000000000 + hours 1))
      \<and> dict_get past (u ''001'') = None
      \<and> dict_get past (u ''002'')
          = Some ((event_001 (1000000000 - hours 3))\<lparr>e_event_id := u ''002''\<rparr>)
      \<and> dict_get up (u ''002'') = None
      \<and> dict_get up (u ''003'') = None
      \<and> dict_get past (u ''003'') = None)"
proof -
  let ?S = "store_three_events 1000000000"
  have keys: "distinct (map fst (events (data ?S)))"
    by (simp add: data_store_three_events u_eq_iff)
  have ok: "\<forall>(k, ev) \<in> set (events (data ?S)). e_status ev = u ''active'' \<longrightarrow>
      (case e_start_at ev of Inl e \<Rightarrow> e = ValueError \<or> e = KeyError
                           | Inr (Naive t) \<Rightarrow> False | Inr (Aware t off) \<Rightarrow> True)"
    by (simp add: data_store_three_events event_001_def)
  have g1: "dict_get (events (data ?S)) (u ''001'') = Some (event_001 (1000000000 + hours 1))
      \<and> e_status (event_001 (1000000000 + hours 1)) = u ''active''"
    and s1: "e_start_at (event_001 (1000000000 + hours 1)) = Inr (Aware (1000000000 + hours 1) (hours 3))"
    by (simp_all add: data_store_three_events dict_get_def event_001_def)
  have g2: "dict_get (events (data ?S)) (u ''002'')
        = Some ((event_001 (1000000000 - hours 3))\<lparr>e_event_id := u ''002''\<rparr>)
      \<and> e_status ((event_001 (1000000000 - hours 3))\<lparr>e_event_id := u ''002''\<rparr>) = u ''active''"
    and s2: "e_start_at ((event_001 (1000000000 - hours 3))\<lparr>e_event_id := u ''002''\<rparr>)
        = Inr (Aware (1000000000 - hours 3) (hours 3))"
    by (simp_all add: data_store_three_events dict_get_def event_001_def u_eq_iff)
  have g3: "dict_get (events (data ?S)) (u ''003'')
        = Some ((event_001 (1000000000 - hours 1))\<lparr>e_event_id := u ''003''\<rparr>)
      \<and> e_status ((event_001 (1000000000 - hours 1))\<lparr>e_event_id := u ''003''\<rparr>) = u ''active''"
    and s3: "e_start_at ((event_001 (1000000000 - hours 1))\<lparr>e_event_id := u ''003''\<rparr>)
        = Inr (Aware (1000000000 - hours 1) (hours 3))"
    by (simp_all add: data_store_three_events dict_get_def event_001_def u_eq_iff)
  from event_classification [OF keys ok, of 1000000000] obtain up past where
    r: "get_upcoming_events 1000000000 ?S = Inr up" "get_past_events 1000000000 ?S = Inr past"
    and c: "\<And>k ev. dict_get (events (data ?S)) k = Some ev \<and> e_status ev = u ''active'' \<Longrightarrow>
          ((\<exists>off. e_start_at ev = Inr (Aware (1000000000 + hours 1) off)) \<longrightarrow>
             dict_get up k = Some ev \<and> dict_get past k = None)
        \<and> ((\<exists>off. e_start_at ev = Inr (Aware (1000000000 - hours 3) off)) \<longrightarrow>
             dict_get past k = Some ev \<and> dict_get up k = None)
        \<and> ((\<exists>off. e_start_at ev = Inr (Aware (1000000000 - hours 1) off)) \<longrightarrow>
             dict_get up k = None \<and> dict_get past k = None)"
    by blast
  from c [OF g1] s1 have r1: "dict_get up (u ''001'') = Some (event_001 (1000000000 + hours 1))"
    "dict_get past (u ''001'') = None" by blast+
  from c [OF g2] s2 have r2: "dict_get past (u ''002'')
          = Some ((event_001 (1000000000 - hours 3))\<lparr>e_event_id := u ''002''\<rparr>)"
    "dict_get up (u ''002'') = None" by blast+
  from c [OF g3] s3 have r3: "dict_get up (u ''003'') = None" "dict_get past (u ''003'') = None"
    by blast+
  from keys r r1 r2 r3 show ?thesis by blast
qed

section \<open>Spreadsheet synchronization\<close>

lemma dict_get_dict_set:
  "dict_get (dict_set k v d) k' = (if k' = k then Some v else dict_get d k')"
  by (induction d) (auto simp: dict_get_def)

lemma dict_set_same: "dict_get d k = Some v \<Longrightarrow> dict_set k v d = d"
  by (induction d) (auto simp: dict_get_def split: if_splits)

lemma dict_set_not_Nil: "dict_set k v d \<noteq> []"
  by (cases d) auto

lemma sync_to_sheet_other:
  "n' \<noteq> n \<Longrightarrow> dict_get (sync_to_sheet sh n d h) n' = dict_get sh n'"
  by (simp add: sync_to_sheet_def Let_def dict_get_dict_set split: option.splits list.splits)

lemma sync_to_sheet_written:
  "dict_get (sync_to_sheet sh n d h) n = None \<or> h = [] \<or> rows_to_update d h = []
   \<or> dict_get (sync_to_sheet sh n d h) n = Some (map CStr h # rows_to_update d h)"
  by (simp add: sync_to_sheet_def Let_def dict_get_dict_set clear_def append_row_def
      append_rows_def split: option.splits list.splits)

lemma sync_to_sheet_fixed:
  "dict_get sh n = None \<or> h = [] \<or> rows_to_update d h = []
   \<or> dict_get sh n = Some (map CStr h # rows_to_update d h)
   \<Longrightarrow> sync_to_sheet sh n d h = sh"
  by (auto simp: sync_to_sheet_def Let_def dict_set_same clear_def append_row_def
      append_rows_def split: option.splits list.splits)

lemma sync_to_sheet_Nil: "sync_to_sheet sh n d h = [] \<longleftrightarrow> sh = []"
  by (auto simp: sync_to_sheet_def Let_def dict_set_not_Nil dict_get_def
      split: option.splits list.splits)

lemma sync_to_sheet_idem:
  "sync_to_sheet (sync_to_sheet sh n d h) n d h = sync_to_sheet sh n d h"
  using sync_to_sheet_written [of sh n d h] by (rule sync_to_sheet_fixed)

lemma rows_to_update_length:
  "length (rows_to_update d h)
     = length (filter (\<lambda>p. case snd p of Record r \<Rightarrow> True | NotRecord v \<Rightarrow> False) d)"
  by (induction d h rule: rows_to_update.induct) simp_all

lemma rows_to_update_width: "row \<in> set (rows_to_update d h) \<Longrightarrow> length row = length h"
  by (induction d h rule: rows_to_update.induct) auto

lemma tab_names_distinct:
  "u ''events'' \<noteq> u ''users''" "u ''events'' \<noteq> u ''registrations''"
  "u ''events'' \<noteq> u ''blacklist''" "u ''events'' \<noteq> u ''reminders''"
  "u ''users'' \<noteq> u ''registrations''" "u ''users'' \<noteq> u ''blacklist''"
  "u ''users'' \<noteq> u ''reminders''" "u ''registrations'' \<noteq> u ''blacklist''"
  "u ''registrations'' \<noteq> u ''reminders''" "u ''blacklist'' \<noteq> u ''reminders''"
  by (simp_all add: u_eq_iff)

lemma sync_all_data_idem:
  "sync_all_data (sync_all_data sheets snap) snap = sync_all_data sheets snap"
proof (cases sheets)
  case None
  then show ?thesis by (simp add: sync_all_data_def)
next
  case (Some sh)
  show ?thesis
  proof (cases "sh = []")
    case True
    with Some show ?thesis by (simp add: sync_all_data_def)
  next
    case False
    define sh1 where "sh1 = sync_to_sheet sh (u ''events'') (s_events snap) events_headers"
    define sh2 where "sh2 = sync_to_sheet sh1 (u ''users'') (s_users snap) users_headers"
    define sh3 where "sh3 = sync_to_sheet sh2 (u ''registrations'') (s_registrations snap)
                          registrations_headers"
    define sh4 where "sh4 = sync_to_sheet sh3 (u ''blacklist'') (s_blacklist snap) blacklist_headers"
    define sh5 where "sh5 = sync_to_sheet sh4 (u ''reminders'') (s_reminders snap) reminders_headers"
    have first: "sync_all_data sheets snap = Some sh5"
      using Some False by (simp add: sync_all_data_def Let_def sh1_def sh2_def sh3_def sh4_def sh5_def)
    have ne: "sh5 \<noteq> []"
      using False by (simp add: sh5_def sh4_def sh3_def sh2_def sh1_def sync_to_sheet_Nil)
    note names = tab_names_distinct tab_names_distinct [symmetric]
    have g1: "dict_get sh5 (u ''events'') = dict_get sh1 (u ''events'')"
      by (simp add: sh5_def sh4_def sh3_def sh2_def sync_to_sheet_other names)
    have g2: "dict_get sh5 (u ''users'') = dict_get sh2 (u ''users'')"
      by (simp add: sh5_def sh4_def sh3_def sync_to_sheet_other names)
    have g3: "dict_get sh5 (u ''registrations'') = dict_get sh3 (u ''registrations'')"
      by (simp add: sh5_def sh4_def sync_to_sheet_other names)
    have g4: "dict_get sh5 (u ''blacklist'') = dict_get sh4 (u ''blacklist'')"
      by (simp add: sh5_def sync_to_sheet_other names)
    have f1: "sync_to_sheet sh5 (u ''events'') (s_events snap) events_headers = sh5"
      using sync_to_sheet_written [of sh "u ''events''" "s_events snap" events_headers]
      unfolding sh1_def [symmetric] g1 [symmetric] by (rule sync_to_sheet_fixed)
    have f2: "sync_to_sheet sh5 (u ''users'') (s_users snap) users_headers = sh5"
      using sync_to_sheet_written [of sh1 "u ''users''" "s_users snap" users_headers]
      unfolding sh2_def [symmetric] g2 [symmetric] by (rule sync_to_sheet_fixed)
    have f3: "sync_to_sheet sh5 (u ''registrations'') (s_registrations snap) registrations_headers
                = sh5"
      using sync_to_sheet_written [of sh2 "u ''registrations''" "s_registrations snap"
          registrations_headers]
      unfolding sh3_def [symmetric] g3 [symmetric] by (rule sync_to_sheet_fixed)
    have f4: "sync_to_sheet sh5 (u ''blacklist'') (s_blacklist snap) blacklist_headers = sh5"
      using sync_to_sheet_written [of sh3 "u ''blacklist''" "s_blacklist snap" blacklist_headers]
      unfolding sh4_def [symmetric] g4 [symmetric] by (rule sync_to_sheet_fixed)
    have f5: "sync_to_sheet sh5 (u ''reminders'') (s_reminders snap) reminders_headers = sh5"
      using sync_to_sheet_written [of sh4 "u ''reminders''" "s_reminders snap" reminders_headers]
      unfolding sh5_def [symmetric] by (rule sync_to_sheet_fixed)
    have "sync_all_data (Some sh5) snap = Some sh5"
      using ne by (simp add: sync_all_data_def Let_def f1 f2 f3 f4 f5)
    with first show ?thesis by simp
  qed
qed

text \<open>
  C6 (as the code has it). A synchronization of a tab that is available and has at least
  one structured record clears it and leaves exactly the header row followed by one row
  per structured record, each with one cell per header column (a missing field is the
  empty string); a tab that is not available, or whose collection has no structured
  record, is left as it was (it is not cleared and no header is written). Consequently
  a second synchronization with the same data leaves every tab as the first one left it.
\<close>

theorem wholesale_sync:
  "(dict_get sheets name = Some old \<and> headers \<noteq> [] \<and> rows_to_update items headers \<noteq> [] \<longrightarrow>
      dict_get (sync_to_sheet sheets name items headers) name
        = Some (map CStr headers # rows_to_update items headers))
   \<and> (rows_to_update items headers = [] \<or> dict_get sheets name = None \<longrightarrow>
        sync_to_sheet sheets name items headers = sheets)
   \<and> length (rows_to_update items headers)
        = length (filter (\<lambda>p. case snd p of Record r \<Rightarrow> True | NotRecord v \<Rightarrow> False) items)
   \<and> (\<forall>row \<in> set (rows_to_update items headers). length row = length headers)
   \<and> sync_to_sheet (sync_to_sheet sheets name items headers) name items headers
        = sync_to_sheet sheets name items headers
   \<and> sync_all_data (sync_all_data tabs snap) snap = sync_all_data tabs snap"
proof (intro conjI impI ballI)
  assume "dict_get sheets name = Some old \<and> headers \<noteq> [] \<and> rows_to_update items headers \<noteq> []"
  then show "dict_get (sync_to_sheet sheets name items headers) name
        = Some (map CStr headers # rows_to_update items headers)"
    by (auto simp: sync_to_sheet_def Let_def dict_get_dict_set clear_def append_row_def
        append_rows_def split: list.splits)
next
  assume "rows_to_update items headers = [] \<or> dict_get sheets name = None"
  then show "sync_to_sheet sheets name items headers = sheets"
    by (intro sync_to_sheet_fixed) auto
next
  show "length (rows_to_update items headers)
        = length (filter (\<lambda>p. case snd p of Record r \<Rightarrow> True | NotRecord v \<Rightarrow> False) items)"
    by (rule rows_to_update_length)
next
  fix row assume "row \<in> set (rows_to_update items headers)"
  then show "length row = length headers" by (rule rows_to_update_width)
next
  show "sync_to_sheet (sync_to_sheet sheets name items headers) name items headers
        = sync_to_sheet sheets name items headers"
    by (rule sync_to_sheet_idem)
next
  show "sync_all_data (sync_all_data tabs snap) snap = sync_all_data tabs snap"
    by (rule sync_all_data_idem)
qed

lemma one_user_rows:
  "rows_to_update (s_users one_user_snapshot) users_headers
     = [[CInt 7, CStr [], CStr (u ''Ivan Petrov''), CStr [], CStr []]]"
  by (simp add: one_user_snapshot_def users_headers_def dict_get_def get_default_def u_eq_iff)

lemma stale_sheets_tabs:
  "dict_get stale_sheets (u ''users'') = Some []"
  "dict_get stale_sheets (u ''events'') = None"
  "dict_get stale_sheets (u ''registrations'') = None"
  "dict_get stale_sheets (u ''reminders'') = None"
  by (simp_all add: stale_sheets_def dict_get_def u_eq_iff)

theorem wholesale_sync_witness:
  "dict_get stale_sheets (u ''users'') = Some [] \<and> users_headers \<noteq> []
   \<and> rows_to_update (s_users one_user_snapshot) users_headers \<noteq> []
   \<and> dict_get (sync_to_sheet stale_sheets (u ''users'') (s_users one_user_snapshot) users_headers)
        (u ''users'')
       = Some [map CStr users_headers,
               [CInt 7, CStr [], CStr (u ''Ivan Petrov''), CStr [], CStr []]]"
proof -
  have h: "dict_get stale_sheets (u ''users'') = Some [] \<and> users_headers \<noteq> []
     \<and> rows_to_update (s_users one_user_snapshot) users_headers \<noteq> []"
    by (simp add: stale_sheets_tabs one_user_rows) (simp add: users_headers_def)
  from wholesale_sync [of stale_sheets "u ''users''" "[]" users_headers
      "s_users one_user_snapshot", THEN conjunct1, THEN mp, OF h] h
  show ?thesis by (simp add: one_user_rows)
qed

text \<open>
  C6 as stated fails for a collection without records: the block-list is empty, yet after
  the pass the \<open>blacklist\<close> tab still holds its old data row; the tab was neither
  cleared nor rewritten.
\<close>

theorem empty_collection_not_cleared_counterexample:
  "s_blacklist one_user_snapshot = []
   \<and> sync_all_data (Some stale_sheets) one_user_snapshot =
       Some [(u ''users'', [map CStr users_headers,
                            [CInt 7, CStr [], CStr (u ''Ivan Petrov''), CStr [], CStr []]]),
             (u ''blacklist'', [map CStr blacklist_headers,
                                [CStr (u ''7''), CStr (u ''spam''), CStr (u ''1''), CStr (u ''2025'')]])]"
proof -
  have e: "s_events one_user_snapshot = []" "s_registrations one_user_snapshot = []"
    "s_blacklist one_user_snapshot = []" "s_reminders one_user_snapshot = []"
    by (simp_all add: one_user_snapshot_def)
  have ne: "stale_sheets \<noteq> []" by (simp add: stale_sheets_def)
  have s1: "sync_to_sheet stale_sheets (u ''events'') [] events_headers = stale_sheets"
    by (rule sync_to_sheet_fixed) simp
  have s2: "sync_to_sheet stale_sheets (u ''users'') (s_users one_user_snapshot) users_headers
      = [(u ''users'', [map CStr users_headers,
                            [CInt 7, CStr [], CStr (u ''Ivan Petrov''), CStr [], CStr []]]),
             (u ''blacklist'', [map CStr blacklist_headers,
                                [CStr (u ''7''), CStr (u ''spam''), CStr (u ''1''), CStr (u ''2025'')]])]"
    (is "_ = ?T")
    unfolding sync_to_sheet_def one_user_rows stale_sheets_tabs
    by (simp add: users_headers_def)
       (simp add: clear_def append_row_def append_rows_def stale_sheets_def)
  have s3: "sync_to_sheet ?T n [] h = ?T" for n h
    by (rule sync_to_sheet_fixed) simp
  show ?thesis
    using ne by (simp add: sync_all_data_def Let_def e s1 s2 s3)
qed

section \<open>Accepting a freed place\<close>

lemma get_registration_update:
  assumes "get_registration st rid = Some reg"
  shows "get_registration (ls_update_registration st rid upds now) rid' =
           (if py_str rid' = py_str rid
            then Some ((foldl (\<lambda>r upd. apply_update upd r) reg upds)\<lparr>r_updated_at := now\<rparr>)
            else get_registration st rid')"
  using assms
  by (simp add: get_registration_def ls_update_registration_def Let_def data_save_locally
      dict_get_dict_set)

lemma fst_send_place_qr:
  "fst (send_place_qr E st rid reg now) =
     sm_update_registration st (PStr rid)
       [SetQrToken (provisional_qr_token E (r_user_id reg) (r_event_id reg))] now"
  by (simp add: send_place_qr_def Let_def split: sum.splits option.splits)

lemma take_place_parse:
  "95 \<notin> set rid \<Longrightarrow> item_at (split_char 95 (u ''take_place_'' @ rid)) 2 = Inr rid"
proof -
  assume r: "95 \<notin> set rid"
  have d: "u ''take_place_'' @ rid = u ''take'' @ 95 # (u ''place'' @ 95 # rid)"
    by (simp add: u_def)
  have n: "95 \<notin> set (u ''take'')" "95 \<notin> set (u ''place'')" by (simp_all add: u_def)
  have "split_char 95 (u ''take_place_'' @ rid) = [u ''take'', u ''place'', rid]"
    unfolding d by (simp only: split_char_append n r split_char_no_sep not_False_eq_True)
  then show ?thesis by (simp add: item_at_def)
qed

lemma take_place_rejected:
  assumes "item_at (split_char 95 callback_data) 2 = Inr rid"
    and "get_registration st (PStr rid) = None
         \<or> (\<exists>reg. get_registration st (PStr rid) = Some reg \<and> r_status reg \<noteq> u ''waitlist'')"
  shows "take_place_from_waitlist E st callback_data now = Inr ([PlaceAlreadyTaken], st)"
  using assms by (auto simp: take_place_from_waitlist_def)

lemma take_place_accepted:
  assumes "item_at (split_char 95 callback_data) 2 = Inr rid"
    and "get_registration st (PStr rid) = Some reg" and "r_status reg = u ''waitlist''"
  shows "\<exists>replies. take_place_from_waitlist E st callback_data now =
           Inr (replies,
                sm_update_registration
                  (update_registration_status st (PStr rid) (u ''registered'') None now)
                  (PStr rid)
                  [SetQrToken (provisional_qr_token E (r_user_id reg) (r_event_id reg))] now)"
proof -
  let ?st1 = "update_registration_status st (PStr rid) (u ''registered'') None now"
  obtain st2 res where s: "send_place_qr E ?st1 rid reg now = (st2, res)"
    by (cases "send_place_qr E ?st1 rid reg now")
  with fst_send_place_qr [of E ?st1 rid reg now]
  have st2: "st2 = sm_update_registration ?st1 (PStr rid)
       [SetQrToken (provisional_qr_token E (r_user_id reg) (r_event_id reg))] now"
    by simp
  show ?thesis
    using assms s st2
    by (cases res) (simp_all add: take_place_from_waitlist_def Let_def)
qed

lemma accepted_registration:
  assumes "get_registration st (PStr rid) = Some reg"
  shows "get_registration
           (sm_update_registration
              (update_registration_status st (PStr rid) (u ''registered'') None now)
              (PStr rid) [SetQrToken tok] now) (PStr rid)
         = Some (reg\<lparr>r_status := u ''registered'', r_qr_token := Some tok, r_updated_at := now\<rparr>)"
proof -
  have 1: "get_registration (update_registration_status st (PStr rid) (u ''registered'') None now)
             (PStr rid) = Some (reg\<lparr>r_status := u ''registered'', r_updated_at := now\<rparr>)"
    using get_registration_update [OF assms, of "[SetStatus (u ''registered'')]" now "PStr rid"]
    by (simp add: update_registration_status_def)
  show ?thesis
    using get_registration_update [OF 1, of "[SetQrToken tok]" now "PStr rid"]
    by (simp add: sm_update_registration_def)
qed

text \<open>
  C5 (as the code has it). When the user accepts while the registration is still
  \<open>waitlist\<close>, the registration becomes \<open>registered\<close> and its token is regenerated from
  \<open>reg_<user_id>_<event_id>\<close>, the event and the user: a value that depends on nothing
  else, hence the very token \<open>process_fullname\<close> issued at registration. A second accept
  is answered with "place already taken" and changes nothing.
\<close>

theorem waitlist_accept:
  assumes "95 \<notin> set rid" and "get_registration st (PStr rid) = Some reg"
    and "r_status reg = u ''waitlist''"
  shows "\<exists>replies st'.
           take_place_from_waitlist E st (u ''take_place_'' @ rid) now = Inr (replies, st')
         \<and> get_registration st' (PStr rid) =
             Some (reg\<lparr>r_status := u ''registered'',
                       r_qr_token := Some (provisional_qr_token E (r_user_id reg) (r_event_id reg)),
                       r_updated_at := now\<rparr>)
         \<and> take_place_from_waitlist E st' (u ''take_place_'' @ rid) later
             = Inr ([PlaceAlreadyTaken], st')"
proof -
  note parse = take_place_parse [OF assms(1)]
  let ?tok = "provisional_qr_token E (r_user_id reg) (r_event_id reg)"
  let ?st' = "sm_update_registration
                  (update_registration_status st (PStr rid) (u ''registered'') None now)
                  (PStr rid) [SetQrToken ?tok] now"
  from take_place_accepted [OF parse assms(2,3)] obtain replies where
    a: "take_place_from_waitlist E st (u ''take_place_'' @ rid) now = Inr (replies, ?st')"
    by blast
  have g: "get_registration ?st' (PStr rid) =
      Some (reg\<lparr>r_status := u ''registered'', r_qr_token := Some ?tok, r_updated_at := now\<rparr>)"
    by (rule accepted_registration [OF assms(2)])
  have "take_place_from_waitlist E ?st' (u ''take_place_'' @ rid) later
          = Inr ([PlaceAlreadyTaken], ?st')"
    by (rule take_place_rejected [OF parse]) (simp add: g registered_ne_waitlist)
  with a g show ?thesis by blast
qed

lemma str_int_small: "str_int 1 = u ''1''" "str_int 2 = u ''2''" "str_int 3 = u ''3''"
  by (simp_all add: str_int_def digits.simps u_def)

lemma store_full_facts:
  "get_event store_full (PStr (u ''001'')) = Some (event_001 1000000000)"
  "get_registrations_count store_full (PStr (u ''001'')) (u ''registered'') = 2"
  "get_waitlist_count store_full (PStr (u ''001'')) = 0"
  "get_next_registration_id store_full = 3"
  by (simp_all add: store_full_def store_001_event store_001_count get_waitlist_count_def
      reg_001_def u_eq_iff get_next_registration_id_def data_store_001 int_of_str_str_int)

lemma store_waiting_outcome:
  "fst (sm_create_registration store_full (PInt 13) (PStr (u ''001'')) (u ''Oleg Kim'')
          (provisional_qr_token env_0 (PInt 13) (PStr (u ''001''))) 0)
     = Some (3, u ''waitlist'', Some 1)"
  using create_registration_outcome [OF store_full_facts(1), of "PInt 13" "u ''Oleg Kim''"
      "provisional_qr_token env_0 (PInt 13) (PStr (u ''001''))" 0]
  by (simp add: store_full_facts event_001_def)

lemma store_waiting_registration:
  "get_registration store_waiting (PStr (u ''3'')) = Some waiting_registration"
proof -
  have k: "\<not> has_key (registrations (data store_full)) (u ''3'')"
    using next_registration_id_fresh [of store_full]
    by (simp add: store_full_facts str_int_small)
  have n: "new_status store_full (PStr (u ''001'')) (event_001 1000000000) = u ''waitlist''"
    by (simp add: new_status_def store_full_facts event_001_def)
  show ?thesis
    unfolding store_waiting_def get_registration_def
      create_registration_data [OF store_full_facts(1)]
    using k
    by (simp add: dict_get_append_fresh store_full_facts str_int_small n
        waiting_registration_def)
qed

theorem waitlist_accept_witness:
  "95 \<notin> set (u ''3'')
   \<and> get_registration store_waiting (PStr (u ''3'')) = Some waiting_registration
   \<and> r_status waiting_registration = u ''waitlist''
   \<and> (\<exists>replies st'.
         take_place_from_waitlist env_0 store_waiting (u ''take_place_'' @ u ''3'') 5
           = Inr (replies, st')
       \<and> get_registration st' (PStr (u ''3'')) =
           Some (waiting_registration\<lparr>r_status := u ''registered'',
              r_qr_token := Some (provisional_qr_token env_0 (r_user_id waiting_registration)
                                    (r_event_id waiting_registration)),
              r_updated_at := 5\<rparr>)
       \<and> take_place_from_waitlist env_0 st' (u ''take_place_'' @ u ''3'') 6
           = Inr ([PlaceAlreadyTaken], st'))"
proof -
  have a: "95 \<notin> set (u ''3'')" by (simp add: u_def)
  have c: "r_status waiting_registration = u ''waitlist''"
    by (simp add: waiting_registration_def)
  from waitlist_accept [OF a store_waiting_registration c, of env_0 5 6]
    a store_waiting_registration c
  show ?thesis by blast
qed

text \<open>
  C5 as stated fails on the token: user 13 registers for the full event 001 as
  \<open>process_fullname\<close> does and is put on the waitlist at position 1 with the provisional
  token; after the place is accepted the registration is \<open>registered\<close> and carries the
  same token value, not a new one.
\<close>

theorem accepted_token_unchanged_counterexample:
  "fst (sm_create_registration store_full (PInt 13) (PStr (u ''001'')) (u ''Oleg Kim'')
          (provisional_qr_token env_0 (PInt 13) (PStr (u ''001''))) 0)
     = Some (3, u ''waitlist'', Some 1)
   \<and> map_option r_qr_token (get_registration store_waiting (PStr (u ''3'')))
       = Some (Some (provisional_qr_token env_0 (PInt 13) (PStr (u ''001''))))
   \<and> \<not> isl (take_place_from_waitlist env_0 store_waiting (u ''take_place_3'') 5)
   \<and> map_option r_status
        (get_registration
           (snd (projr (take_place_from_waitlist env_0 store_waiting (u ''take_place_3'') 5)))
           (PStr (u ''3'')))
       = Some (u ''registered'')
   \<and> map_option r_qr_token
        (get_registration
           (snd (projr (take_place_from_waitlist env_0 store_waiting (u ''take_place_3'') 5)))
           (PStr (u ''3'')))
       = Some (Some (provisional_qr_token env_0 (PInt 13) (PStr (u ''001''))))"
proof -
  have d: "u ''take_place_3'' = u ''take_place_'' @ u ''3''" by (simp add: u_def)
  have a: "95 \<notin> set (u ''3'')" by (simp add: u_def)
  have c: "r_status waiting_registration = u ''waitlist''"
    "r_user_id waiting_registration = PInt 13"
    "r_event_id waiting_registration = PStr (u ''001'')"
    "r_qr_token waiting_registration
       = Some (provisional_qr_token env_0 (PInt 13) (PStr (u ''001'')))"
    by (simp_all add: waiting_registration_def)
  from take_place_accepted [OF take_place_parse [OF a] store_waiting_registration c(1),
      of env_0 5]
  obtain replies where
    t: "take_place_from_waitlist env_0 store_waiting (u ''take_place_3'') 5 =
           Inr (replies,
                sm_update_registration
                  (update_registration_status store_waiting (PStr (u ''3'')) (u ''registered'')
                     None 5)
                  (PStr (u ''3''))
                  [SetQrToken (provisional_qr_token env_0 (PInt 13) (PStr (u ''001'')))] 5)"
    unfolding d c by blast
  show ?thesis
    unfolding t
    by (simp add: store_waiting_outcome store_waiting_registration c
        accepted_registration [OF store_waiting_registration])
qed

section \<open>The block-list gate\<close>

lemma split_char_nonempty: "split_char c s \<noteq> []"
  by (subst split_char.simps) simp

lemma register_parse:
  assumes "startswith (u ''register_'') callback_data"
  shows "\<exists>event_id. item_at (split_char 95 callback_data) 1 = Inr event_id"
proof -
  from assms have "callback_data = u ''register_'' @ drop (length (u ''register_'')) callback_data"
    unfolding startswith_def by (metis append_take_drop_id)
  then obtain rest where d: "callback_data = u ''register_'' @ rest" ..
  have e: "u ''register_'' @ rest = u ''register'' @ 95 # rest" by (simp add: u_def)
  have n: "95 \<notin> set (u ''register'')" by (simp add: u_def)
  obtain p ps where ps: "split_char 95 rest = p # ps"
    using split_char_nonempty [of 95 rest] by (cases "split_char 95 rest") auto
  have "split_char 95 callback_data = u ''register'' # p # ps"
    unfolding d e using split_char_append [OF n, of rest] ps by simp
  then show ?thesis by (simp add: item_at_def)
qed

lemma start_registration_blocked:
  assumes "is_blacklisted st user_id" and "startswith (u ''register_'') callback_data"
  shows "start_registration st user_id callback_data state now = Inr ([ActionUnavailable], state)"
proof -
  from register_parse [OF assms(2)] obtain event_id where
    "item_at (split_char 95 callback_data) 1 = Inr event_id" ..
  with assms(1) show ?thesis by (simp add: start_registration_def)
qed

lemma broadcast_loop_recipients:
  "d \<in> set (fst (broadcast_loop E st event users_data)) \<Longrightarrow> \<not> is_blacklisted st (recipient d)"
proof (induction E st event users_data arbitrary: d rule: broadcast_loop.induct)
  case (4 E st event user_id rest)
  then show ?case
    by (auto simp: event_post_def Let_def split: if_splits prod.splits)
qed simp_all

lemma broadcast_loop_skips:
  "broadcast_loop E st event
     (filter (\<lambda>item. case item of UserDict (Some uid) \<Rightarrow> \<not> is_blacklisted st uid | _ \<Rightarrow> True)
        users_data)
   = broadcast_loop E st event users_data"
  by (induction E st event users_data rule: broadcast_loop.induct) simp_all

lemma broadcast_event_skips:
  "broadcast_event E st
     (filter (\<lambda>item. case item of UserDict (Some uid) \<Rightarrow> \<not> is_blacklisted st uid | _ \<Rightarrow> True)
        users_data) event_id now attempts
   = broadcast_event E st users_data event_id now attempts"
proof -
  define P where
    "P = (\<lambda>item. case item of UserDict (Some uid) \<Rightarrow> \<not> is_blacklisted st uid | _ \<Rightarrow> True)"
  have l: "broadcast_loop E st ev (filter P us) = broadcast_loop E st ev us" for ev us
    unfolding P_def by (rule broadcast_loop_skips)
  have "broadcast_event E st (filter P users_data) event_id now attempts
          = broadcast_event E st users_data event_id now attempts"
    by (induction attempts) (simp_all add: l split: option.splits sum.splits)
  then show ?thesis unfolding P_def .
qed

lemma broadcast_event_recipients:
  "broadcast_event E st users_data event_id now attempts = Some res \<Longrightarrow> d \<in> set (fst res)
   \<Longrightarrow> \<not> is_blacklisted st (recipient d)"
proof (induction attempts)
  case 0
  then show ?case by simp
next
  case (Suc attempts)
  then show ?case
    by (auto split: option.splits sum.splits if_splits dest: broadcast_loop_recipients)
qed


end
